theory Spec2Isabelle
  imports Main "HOL-Library.Word"
begin

unbundle bit_operations_syntax

section \<open>The gnuplot output module of libsigrok (src/output/gnuplot.c)\<close>

text \<open>
  The module has three entry points, \<open>init\<close>, \<open>event\<close> and \<open>data\<close>, called by
  the host through \<open>struct sr_output_format output_gnuplot\<close>. This theory embeds them as
  HOL functions and proves or refutes properties of them.

  Conventions of the embedding.
  \<^item> A C execution either reaches a \<open>return\<close> (\<open>Returns\<close>) or runs into behaviour the
    C standard leaves undefined (\<open>Undefined\<close>): a read or write outside an object, a
    use of an uninitialised pointer or of freed memory, a signed shift that overflows,
    a division by zero.
  \<^item> Pointer arguments that the code tests against \<open>NULL\<close> are options or booleans.
  \<^item> \<open>unsigned int\<close> is \<open>32 word\<close>, \<open>uint64_t\<close> is \<open>64 word\<close>; all arithmetic on
    them wraps as in C. The host is little-endian (\<open>memcpy\<close> into a \<open>uint64_t\<close>).
  \<^item> A NUL-terminated C string is a \<open>string\<close>; \<open>strlen\<close> is \<open>length\<close>.
\<close>

subsection \<open>C values and library routines\<close>

type_synonym u8 = "8 word"
type_synonym u32 = "32 word"
type_synonym u64 = "64 word"

datatype retcode = SR_OK | SR_ERR | SR_ERR_MALLOC | SR_ERR_ARG

datatype 'a exec = Undefined | Returns 'a

definition TAB :: string where
  "TAB = [CHR 0x09]"

definition NL :: string where
  "NL = [CHR 0x0A]"

text \<open>Decimal digits of a natural number, as \<open>printf\<close> writes them.\<close>

fun dec :: "nat \<Rightarrow> string" where
  "dec n = (if n < 10 then [''0123456789'' ! n]
            else dec (n div 10) @ [''0123456789'' ! (n mod 10)])"

declare dec.simps [simp del]

text \<open>\<open>"%d"\<close> applied to a 32-bit argument, and \<open>"%" PRIu64\<close>.\<close>

definition print_d :: "u32 \<Rightarrow> string" where
  "print_d w = (if sint w < 0 then CHR ''-'' # dec (nat (- sint w)) else dec (nat (sint w)))"

definition print_u64 :: "u64 \<Rightarrow> string" where
  "print_u64 w = dec (unat w)"

text \<open>
  \<open>snprintf (buf, n, ...)\<close> stores at most \<open>n - 1\<close> characters of the formatted text
  and a terminating NUL.
\<close>

definition snprintf :: "nat \<Rightarrow> string \<Rightarrow> string" where
  "snprintf n text = take (n - 1) text"

text \<open>
  \<open>c = buf + strlen (buf); sprintf (c, ...)\<close> on a buffer of \<open>cap\<close> bytes that holds
  the string \<open>buf\<close>: the text and its terminating NUL are written behind the string,
  which is a write outside the buffer unless they fit.
\<close>

definition sprintf_at_end :: "nat \<Rightarrow> string \<Rightarrow> string \<Rightarrow> string exec" where
  "sprintf_at_end cap buf text =
     (if length buf + length text + 1 \<le> cap then Returns (buf @ text) else Undefined)"

text \<open>
  \<open>memcpy (&sample, src, n)\<close> for a \<open>uint64_t sample\<close>: the \<open>n\<close> bytes replace the
  low-order bytes of the variable, the other bytes keep what the variable held.
\<close>

definition le_bytes :: "u64 \<Rightarrow> u8 list" where
  "le_bytes w = map (\<lambda>j. ucast (drop_bit (8 * j) w)) [0..<8]"

definition of_le_bytes :: "u8 list \<Rightarrow> u64" where
  "of_le_bytes bs = foldr (\<lambda>b acc. ucast b OR push_bit 8 acc) bs 0"

definition memcpy_sample :: "u64 \<Rightarrow> u8 list \<Rightarrow> u64" where
  "memcpy_sample sample src = of_le_bytes (src @ drop (length src) (le_bytes sample))"

subsection \<open>Data structures\<close>

record sr_probe =
  name :: string
  enabled :: bool

text \<open>
  \<open>struct sr_dev_inst\<close> with what \<open>init\<close> asks of it: the probe list, whether
  \<open>driver\<close> is set, the answer of \<open>sr_dev_has_hwcap (sdi, SR_HWCAP_SAMPLERATE)\<close>, and
  the address \<open>info_get (SR_DI_CUR_SAMPLERATE, ...)\<close> stores: \<open>Some r\<close> when it points
  to the rate \<open>r\<close>, \<open>None\<close> when the driver stores nothing.
\<close>

record sr_dev_inst =
  probes :: "sr_probe list"
  driver_present :: bool
  hwcap_samplerate :: bool
  cur_samplerate :: "u64 option"

record context_s =
  num_enabled_probes :: u32
  unitsize :: u32
  probelist :: "string list"
  header :: "string option"

text \<open>
  \<open>o->internal\<close>: \<open>NULL\<close>, a live \<open>struct context\<close>, or the address of a context
  that \<open>init\<close> has freed on one of its failure paths without resetting the field.
\<close>

datatype ctx_ptr = Null | Live context_s | Dangling

record sr_output =
  sdi :: "sr_dev_inst option"
  internal :: ctx_ptr

text \<open>
  The heap blocks of the module that an output holds: \<open>init\<close> allocates the
  \<open>struct context\<close> and the buffer of \<open>ctx->header\<close> (lines 88 and 93) and frees
  both on its failure paths; \<open>data\<close> frees the header buffer when it clears
  \<open>ctx->header\<close> (lines 242 and 243). So a live context is an allocated struct, and
  a pending header is an allocated buffer that only \<open>ctx->header\<close> points to.
\<close>

datatype block = Context_block | Header_block

definition allocated :: "sr_output \<Rightarrow> block list" where
  "allocated out =
     (case internal out of
        Null \<Rightarrow> []
      | Dangling \<Rightarrow> []
      | Live ctx \<Rightarrow>
          Context_block # (case header ctx of None \<Rightarrow> [] | Some h \<Rightarrow> [Header_block]))"

text \<open>The function-level statics of \<open>data\<close>; both start at 0 when the program is loaded.\<close>

record statics =
  samplecount :: u64
  old_sample :: u64

definition initial_statics :: statics where
  "initial_statics = \<lparr>samplecount = 0, old_sample = 0\<rparr>"

text \<open>
  What a call stores through \<open>data_out\<close> and \<open>length_out\<close>: \<open>None\<close> when it stores
  nothing, otherwise the buffer (\<open>None\<close> for \<open>NULL\<close>) and the length.
\<close>

type_synonym outparams = "(string option \<times> nat) option"

text \<open>
  The packet types \<open>event\<close> switches on. \<open>SR_DF_TRIGGER\<close> and \<open>SR_DF_END\<close> are
  enumerators of libsigrok.h; every other value of \<open>event_type\<close> is \<open>SR_DF_other\<close>.
\<close>

datatype packet_type = SR_DF_TRIGGER | SR_DF_END | SR_DF_other int

subsection \<open>init\<close>

text \<open>
  What \<open>init\<close> takes from outside this file: the macros \<open>PACKAGE_STRING\<close> (config.h),
  \<open>SR_MAX_NUM_PROBES\<close> and \<open>SR_MAX_PROBENAME_LEN\<close> (libsigrok.h), the text of
  \<open>ctime (&t)\<close>, the helpers \<open>sr_samplerate_string\<close> and \<open>sr_period_string\<close>
  (\<open>None\<close> when they return \<open>NULL\<close>), whether the two \<open>g_try_malloc0\<close> calls succeed
  and whether the final \<open>snprintf\<close> reports an error.
\<close>

record init_env =
  PACKAGE_STRING :: string
  SR_MAX_NUM_PROBES :: nat
  SR_MAX_PROBENAME_LEN :: nat
  ctime_now :: string
  sr_samplerate_string :: "u64 \<Rightarrow> string option"
  sr_period_string :: "u64 \<Rightarrow> string option"
  ctx_malloc_ok :: bool
  header_malloc_ok :: bool
  snprintf_error :: bool

definition MAX_HEADER_LEN :: "init_env \<Rightarrow> nat" where
  "MAX_HEADER_LEN env = 1024 + SR_MAX_NUM_PROBES env * (SR_MAX_PROBENAME_LEN env + 10)"

definition gnuplot_header ::
  "string \<Rightarrow> string \<Rightarrow> string \<Rightarrow> string \<Rightarrow> string \<Rightarrow> string" where
  "gnuplot_header package time comment period columns =
     ''# Sample data in space-separated columns format usable by gnuplot'' @ NL @
     ''#'' @ NL @
     ''# Generated by: '' @ package @ '' on '' @ time @ comment @
     ''# Period: '' @ period @ NL @
     ''#'' @ NL @
     ''# Column'' @ TAB @ ''Probe'' @ NL @
     ''# '' @ replicate 77 (CHR ''-'') @ NL @
     ''# 0'' @ TAB @ TAB @ ''Sample counter (for internal gnuplot purposes)'' @ NL @
     columns @ NL"

definition gnuplot_header_comment :: "u32 \<Rightarrow> u32 \<Rightarrow> string \<Rightarrow> string" where
  "gnuplot_header_comment e t rate =
     ''# Comment: Acquisition with '' @ print_d e @ ''/'' @ print_d t @
     '' probes at '' @ rate @ NL"

text \<open>
  The loop over the enabled probes that fills \<open>char wbuf[1000]\<close> with one line
  \<open>"# %d\t\t%s\n"\<close> per probe, \<open>i\<close> counting from 0.
\<close>

fun columns_loop :: "nat \<Rightarrow> string list \<Rightarrow> string \<Rightarrow> string exec" where
  "columns_loop i [] wbuf = Returns wbuf"
| "columns_loop i (probe # rest) wbuf =
     (case sprintf_at_end 1000 wbuf
             (''# '' @ print_d (of_nat (i + 1)) @ TAB @ TAB @ probe @ NL) of
        Undefined \<Rightarrow> Undefined
      | Returns wbuf' \<Rightarrow> columns_loop (i + 1) rest wbuf')"

text \<open>
  \<open>init\<close> returns the code and the output object as the call leaves it. The local
  pointer \<open>samplerate\<close> is assigned by \<open>info_get\<close> only, inside the capability test;
  \<open>*samplerate\<close> is read inside that test and again, unconditionally, for
  \<open>sr_period_string\<close>. The array \<open>probelist\<close> has \<open>SR_MAX_NUM_PROBES + 1\<close> entries,
  the last one written is the one behind the enabled probes.
\<close>

definition init :: "init_env \<Rightarrow> sr_output option \<Rightarrow> (retcode \<times> sr_output option) exec" where
  "init env o_ptr =
     (case o_ptr of
        None \<Rightarrow> Returns (SR_ERR_ARG, o_ptr)
      | Some out \<Rightarrow>
        (case sdi out of
           None \<Rightarrow> Returns (SR_ERR_ARG, o_ptr)
         | Some dev \<Rightarrow>
           if \<not> driver_present dev then Returns (SR_ERR_ARG, o_ptr)
           else if \<not> ctx_malloc_ok env then Returns (SR_ERR_MALLOC, o_ptr)
           else if \<not> header_malloc_ok env then Returns (SR_ERR_MALLOC, o_ptr)
           else
             let names = map name (filter enabled (probes dev));
                 failed = Some (out\<lparr>internal := Dangling\<rparr>)
             in
             if SR_MAX_NUM_PROBES env < length names then Undefined
             else
               let n = (of_nat (length names) :: u32);
                   usize = (n + 7) div 8;
                   num_probes = (of_nat (length (probes dev)) :: u32);
                   samplerate = (if hwcap_samplerate dev then cur_samplerate dev else None)
               in
               (case (if hwcap_samplerate dev
                      then (case samplerate of
                              None \<Rightarrow> Undefined
                            | Some r \<Rightarrow>
                              (case sr_samplerate_string env r of
                                 None \<Rightarrow> Returns None
                               | Some frequency_s \<Rightarrow>
                                   Returns (Some (snprintf 127
                                     (gnuplot_header_comment n num_probes frequency_s)))))
                      else Returns (Some [])) of
                  Undefined \<Rightarrow> Undefined
                | Returns None \<Rightarrow> Returns (SR_ERR, failed)
                | Returns (Some comment) \<Rightarrow>
                  (case columns_loop 0 names [] of
                     Undefined \<Rightarrow> Undefined
                   | Returns wbuf \<Rightarrow>
                     (case samplerate of
                        None \<Rightarrow> Undefined
                      | Some r \<Rightarrow>
                        (case sr_period_string env r of
                           None \<Rightarrow> Returns (SR_ERR, failed)
                         | Some frequency_s \<Rightarrow>
                           if snprintf_error env then Returns (SR_ERR, failed)
                           else Returns (SR_OK, Some (out\<lparr>internal := Live
                                  \<lparr>num_enabled_probes = n, unitsize = usize,
                                   probelist = names,
                                   header = Some (snprintf (MAX_HEADER_LEN env)
                                     (gnuplot_header (PACKAGE_STRING env) (ctime_now env)
                                        comment frequency_s wbuf))\<rparr>\<rparr>))))))))"

subsection \<open>event\<close>

text \<open>
  \<open>event\<close> returns the code, what it stored through the out-parameters, the output
  object, and the heap blocks it has freed. Its only \<open>g_free\<close> is
  \<open>g_free (o->internal)\<close> (line 179), which does nothing for \<open>NULL\<close> and frees the
  \<open>struct context\<close> of a live context, not the buffer \<open>ctx->header\<close> points to; on
  an address that was freed before it is a double free.
\<close>

definition event ::
  "sr_output option \<Rightarrow> packet_type \<Rightarrow> bool \<Rightarrow> bool \<Rightarrow>
   (retcode \<times> outparams \<times> sr_output option \<times> block list) exec" where
  "event o_ptr event_type data_out length_out =
     (case o_ptr of
        None \<Rightarrow> Returns (SR_ERR_ARG, None, o_ptr, [])
      | Some out \<Rightarrow>
        if \<not> data_out then Returns (SR_ERR_ARG, None, o_ptr, [])
        else if \<not> length_out then Returns (SR_ERR_ARG, None, o_ptr, [])
        else
          (case event_type of
             SR_DF_TRIGGER \<Rightarrow> Returns (SR_OK, Some (None, 0), o_ptr, [])
           | SR_DF_END \<Rightarrow>
             (case internal out of
                Dangling \<Rightarrow> Undefined
              | Null \<Rightarrow>
                  Returns (SR_OK, Some (None, 0), Some (out\<lparr>internal := Null\<rparr>), [])
              | Live ctx \<Rightarrow>
                  Returns (SR_OK, Some (None, 0), Some (out\<lparr>internal := Null\<rparr>),
                    [Context_block]))
           | SR_DF_other n \<Rightarrow> Returns (SR_OK, Some (None, 0), o_ptr, [])))"

subsection \<open>data\<close>

text \<open>
  \<open>curbit = (sample & ((uint64_t) (1 << p))) >> p\<close>. The shift \<open>1 << p\<close> is computed
  in \<open>int\<close>: its value must be representable there, which it is for \<open>p\<close> up to 30;
  the cast to \<open>uint64_t\<close> comes after the shift. The result is stored in an
  \<open>unsigned int\<close>.
\<close>

definition curbit :: "u64 \<Rightarrow> nat \<Rightarrow> u32 exec" where
  "curbit smp p =
     (if 31 \<le> p then Undefined
      else Returns (ucast (drop_bit p (smp AND scast (push_bit p (1 :: u32))))))"

text \<open>The loop \<open>for (p = 0; p < ctx->num_enabled_probes; p++)\<close> over the columns of a row.\<close>

primrec probe_columns :: "nat \<Rightarrow> u64 \<Rightarrow> nat list \<Rightarrow> string \<Rightarrow> string exec" where
  "probe_columns outsize smp [] buf = Returns buf"
| "probe_columns outsize smp (p # ps) buf =
     (case curbit smp p of
        Undefined \<Rightarrow> Undefined
      | Returns b \<Rightarrow>
        (case sprintf_at_end outsize buf (print_d b @ '' '') of
           Undefined \<Rightarrow> Undefined
         | Returns buf' \<Rightarrow> probe_columns outsize smp ps buf'))"

text \<open>
  The variables the sample loop changes: the local \<open>sample\<close>, the two statics and the
  string in \<open>outbuf\<close>.
\<close>

record loop_state =
  sample :: u64
  st :: statics
  outbuf :: string

text \<open>
  One sample, from the value of \<open>sample\<close> after the \<open>memcpy\<close>; \<open>is_last\<close> is the
  outcome of \<open>i == length_in - ctx->unitsize\<close>. The test \<open>samplecount++ != 0\<close>
  increments the counter whatever its outcome, and an emitted row increments it again
  in its \<open>sprintf\<close>.
\<close>

definition process_sample ::
  "context_s \<Rightarrow> nat \<Rightarrow> bool \<Rightarrow> u64 \<Rightarrow> loop_state \<Rightarrow> loop_state exec" where
  "process_sample ctx outsize is_last smp s =
     (let first = (samplecount (st s) = 0);
          count1 = samplecount (st s) + 1
      in
      if \<not> first \<and> smp = old_sample (st s) \<and> \<not> is_last
      then Returns (s\<lparr>sample := smp, st := (st s)\<lparr>samplecount := count1\<rparr>\<rparr>)
      else
        (case sprintf_at_end outsize (outbuf s) (print_u64 count1 @ TAB) of
           Undefined \<Rightarrow> Undefined
         | Returns buf1 \<Rightarrow>
           (case probe_columns outsize smp [0..<unat (num_enabled_probes ctx)] buf1 of
              Undefined \<Rightarrow> Undefined
            | Returns buf2 \<Rightarrow>
              (case sprintf_at_end outsize buf2 NL of
                 Undefined \<Rightarrow> Undefined
               | Returns buf3 \<Rightarrow>
                   Returns \<lparr>sample = smp,
                            st = \<lparr>samplecount = count1 + 1, old_sample = smp\<rparr>,
                            outbuf = buf3\<rparr>))))"

text \<open>
  The body of the sample loop at index \<open>i\<close>. The \<open>memcpy\<close> reads \<open>unitsize\<close> bytes at
  \<open>data_in + i\<close>, which must lie inside the input buffer, and writes them into the
  eight bytes of \<open>sample\<close>.
\<close>

definition data_body ::
  "context_s \<Rightarrow> u8 list \<Rightarrow> nat \<Rightarrow> u32 \<Rightarrow> loop_state \<Rightarrow> loop_state exec" where
  "data_body ctx data_in outsize i s =
     (let length_in = (of_nat (length data_in) :: u64);
          n = unat (unitsize ctx)
      in
      if 8 < n then Undefined
      else if length data_in < unat i + n then Undefined
      else process_sample ctx outsize
             ((ucast i :: u64) = length_in - ucast (unitsize ctx))
             (memcpy_sample (sample s) (take n (drop (unat i) data_in))) s)"

text \<open>
  \<open>for (i = 0; i <= length_in - ctx->unitsize; i += ctx->unitsize)\<close>: \<open>i\<close> is an
  \<open>unsigned int\<close>, the bound is computed in \<open>uint64_t\<close>, and both wrap. The result is
  \<open>None\<close> when the loop does not end.
\<close>

partial_function (option) data_loop ::
  "context_s \<Rightarrow> u8 list \<Rightarrow> nat \<Rightarrow> u32 \<Rightarrow> loop_state \<Rightarrow> loop_state exec option" where
  "data_loop ctx data_in outsize i s =
     (if (ucast i :: u64) \<le> of_nat (length data_in) - ucast (unitsize ctx)
      then (case data_body ctx data_in outsize i s of
              Undefined \<Rightarrow> Some Undefined
            | Returns s' \<Rightarrow> data_loop ctx data_in outsize (i + unitsize ctx) s')
      else Some (Returns s))"

definition max_linelen :: "context_s \<Rightarrow> u32" where
  "max_linelen ctx = 16 + num_enabled_probes ctx * 2"

text \<open>
  \<open>outsize = length_in / ctx->unitsize * max_linelen\<close>, a \<open>uint64_t\<close> product stored
  in an \<open>unsigned int\<close>, plus \<open>strlen (ctx->header)\<close> while the header is pending.
\<close>

definition data_outsize :: "context_s \<Rightarrow> u64 \<Rightarrow> u32" where
  "data_outsize ctx length_in =
     (let outsize = (ucast (length_in div ucast (unitsize ctx) * ucast (max_linelen ctx)) :: u32)
      in case header ctx of None \<Rightarrow> outsize | Some h \<Rightarrow> outsize + of_nat (length h))"

text \<open>
  \<open>data\<close>, given the statics, the output object, the input buffer (\<open>None\<close> for a
  \<open>NULL\<close> pointer, otherwise its \<open>length_in\<close> bytes), whether \<open>data_out\<close> and
  \<open>length_out\<close> are non-\<open>NULL\<close>, the indeterminate value the uninitialised local
  \<open>sample\<close> holds on entry, and whether the allocator can satisfy the request. It
  returns the code, what was stored through the out-parameters, the output object and
  the statics.

  \<open>g_try_malloc0 (0)\<close> is \<open>NULL\<close>. The buffer is zero-filled; \<open>strncpy\<close> leaves
  a string in it only if the header is shorter than \<open>outsize\<close>. If it is not, the buffer
  holds no NUL and the next \<open>strlen (outbuf)\<close>, in the first emitted row or after the
  loop, reads past its end.
\<close>

definition data ::
  "statics \<Rightarrow> sr_output option \<Rightarrow> u8 list option \<Rightarrow> bool \<Rightarrow> bool \<Rightarrow> u64 \<Rightarrow> bool \<Rightarrow>
   (retcode \<times> outparams \<times> sr_output option \<times> statics) exec option" where
  "data stat o_ptr data_in data_out length_out sample_init malloc_ok =
     (case o_ptr of
        None \<Rightarrow> Some (Returns (SR_ERR_ARG, None, o_ptr, stat))
      | Some out \<Rightarrow>
        if internal out = Null then Some (Returns (SR_ERR_ARG, None, o_ptr, stat))
        else
          (case data_in of
             None \<Rightarrow> Some (Returns (SR_ERR_ARG, None, o_ptr, stat))
           | Some bytes \<Rightarrow>
             if \<not> data_out then Some (Returns (SR_ERR_ARG, None, o_ptr, stat))
             else if \<not> length_out then Some (Returns (SR_ERR_ARG, None, o_ptr, stat))
             else
               (case internal out of
                  Null \<Rightarrow> Some (Returns (SR_ERR_ARG, None, o_ptr, stat))
                | Dangling \<Rightarrow> Some Undefined
                | Live ctx \<Rightarrow>
                  if unitsize ctx = 0 then Some Undefined
                  else
                    let outsize = data_outsize ctx (of_nat (length bytes)) in
                    if outsize = 0 then Some (Returns (SR_ERR_MALLOC, None, o_ptr, stat))
                    else if \<not> malloc_ok
                    then Some (Returns (SR_ERR_MALLOC, None, o_ptr, stat))
                    else
                      (case (case header ctx of
                               None \<Rightarrow> Returns []
                             | Some h \<Rightarrow>
                                 if length h < unat outsize then Returns h else Undefined) of
                         Undefined \<Rightarrow> Some Undefined
                       | Returns buf \<Rightarrow>
                         (case data_loop ctx bytes (unat outsize) 0
                                 \<lparr>sample = sample_init, st = stat, outbuf = buf\<rparr> of
                            None \<Rightarrow> None
                          | Some Undefined \<Rightarrow> Some Undefined
                          | Some (Returns s) \<Rightarrow>
                              Some (Returns (SR_OK,
                                Some (Some (outbuf s), length (outbuf s)),
                                Some (out\<lparr>internal := Live (ctx\<lparr>header := None\<rparr>)\<rparr>),
                                st s)))))))"

section \<open>Notions used in the statements\<close>

subsection \<open>Rows and samples\<close>

text \<open>
  The text of the bit columns of a row for \<open>e\<close> enabled probes, least significant bit
  first, and the text of a whole row with counter \<open>c\<close>.
\<close>

definition bit_columns :: "nat \<Rightarrow> u64 \<Rightarrow> string" where
  "bit_columns e smp = concat (map (\<lambda>p. if bit smp p then ''1 '' else ''0 '') [0..<e])"

definition row_text :: "nat \<Rightarrow> u64 \<Rightarrow> u64 \<Rightarrow> string" where
  "row_text e c smp = print_u64 c @ TAB @ bit_columns e smp @ NL"

text \<open>
  The sample loop over an input that consists of complete samples, given as the list
  of its samples: the last sample is the one the loop index meets at
  \<open>length_in - unitsize\<close>.
\<close>

fun run_samples :: "context_s \<Rightarrow> nat \<Rightarrow> loop_state \<Rightarrow> u8 list list \<Rightarrow> loop_state exec" where
  "run_samples ctx cap s [] = Returns s"
| "run_samples ctx cap s (c # cs) =
     (case process_sample ctx cap (cs = []) (memcpy_sample (sample s) c) s of
        Undefined \<Rightarrow> Undefined
      | Returns s' \<Rightarrow> run_samples ctx cap s' cs)"

text \<open>
  The same loop over an input that ends in an incomplete sample: the loop index never
  meets \<open>length_in - unitsize\<close>, so no sample counts as the last one.
\<close>

fun run_samples_tail :: "context_s \<Rightarrow> nat \<Rightarrow> loop_state \<Rightarrow> u8 list list \<Rightarrow> loop_state exec" where
  "run_samples_tail ctx cap s [] = Returns s"
| "run_samples_tail ctx cap s (c # cs) =
     (case process_sample ctx cap False (memcpy_sample (sample s) c) s of
        Undefined \<Rightarrow> Undefined
      | Returns s' \<Rightarrow> run_samples_tail ctx cap s' cs)"

text \<open>
  The values the variable \<open>sample\<close> takes while the loop copies the samples \<open>cs\<close>
  into it, starting from the value \<open>v\<close>.
\<close>

fun decoded :: "u64 \<Rightarrow> u8 list list \<Rightarrow> u64 list" where
  "decoded v [] = []"
| "decoded v (c # cs) = memcpy_sample v c # decoded (memcpy_sample v c) cs"

text \<open>
  The deduplication rule in the words of the specification. \<open>keep_flags first prev vs\<close>
  marks the samples of a chunk with the values \<open>vs\<close> that get a row: the first one
  if \<open>first\<close> holds (nothing has been converted before), the last one of the chunk,
  and every one whose value differs from the value of the sample before it, \<open>prev\<close>
  being the value before the chunk. \<open>rows_text\<close> is the text of the marked rows, with
  the counter as \<open>data\<close> advances it: by one for a sample without a row, by two for
  a sample with a row, which prints the value in between.
\<close>

fun keep_flags :: "bool \<Rightarrow> u64 \<Rightarrow> u64 list \<Rightarrow> bool list" where
  "keep_flags first prev [] = []"
| "keep_flags first prev (v # vs) =
     (if first then True else if vs = [] then True else v \<noteq> prev) # keep_flags False v vs"

fun rows_text :: "nat \<Rightarrow> u64 \<Rightarrow> (bool \<times> u64) list \<Rightarrow> string" where
  "rows_text e c [] = []"
| "rows_text e c ((keep, v) # r) =
     (if keep then row_text e (c + 1) v @ rows_text e (c + 2) r else rows_text e (c + 1) r)"

definition pending_header :: "context_s \<Rightarrow> string" where
  "pending_header ctx = (case header ctx of None \<Rightarrow> [] | Some h \<Rightarrow> h)"

subsection \<open>Example sessions\<close>

definition hdr0 :: string where
  "hdr0 = ''# gnuplot'' @ NL"

definition ctx1 :: context_s where
  "ctx1 = \<lparr>num_enabled_probes = 1, unitsize = 1, probelist = [''A''], header = None\<rparr>"

definition out1 :: sr_output where
  "out1 = \<lparr>sdi = None, internal = Live ctx1\<rparr>"

definition ctx1h :: context_s where
  "ctx1h = \<lparr>num_enabled_probes = 1, unitsize = 1, probelist = [''A''], header = Some hdr0\<rparr>"

definition out1h :: sr_output where
  "out1h = \<lparr>sdi = None, internal = Live ctx1h\<rparr>"

definition ctx3 :: "string \<Rightarrow> context_s" where
  "ctx3 h = \<lparr>num_enabled_probes = 3, unitsize = 1, probelist = [''A'', ''B'', ''C''],
             header = Some h\<rparr>"

definition ctx33 :: context_s where
  "ctx33 = \<lparr>num_enabled_probes = 33, unitsize = 5, probelist = replicate 33 ''P'',
            header = None\<rparr>"

definition out33 :: sr_output where
  "out33 = \<lparr>sdi = None, internal = Live ctx33\<rparr>"

definition env0 :: init_env where
  "env0 = \<lparr>PACKAGE_STRING = ''libsigrok 0.2.0'', SR_MAX_NUM_PROBES = 64,
           SR_MAX_PROBENAME_LEN = 32, ctime_now = ''Thu Jan  1 00:00:00 1970'' @ NL,
           sr_samplerate_string = (\<lambda>r. Some ''1 MHz''),
           sr_period_string = (\<lambda>r. Some ''1 us''),
           ctx_malloc_ok = True, header_malloc_ok = True, snprintf_error = False\<rparr>"

definition probes3 :: "sr_probe list" where
  "probes3 = [\<lparr>name = ''A'', enabled = True\<rparr>, \<lparr>name = ''B'', enabled = True\<rparr>,
              \<lparr>name = ''C'', enabled = True\<rparr>]"

definition dev_no_rate :: sr_dev_inst where
  "dev_no_rate = \<lparr>probes = probes3, driver_present = True,
                  hwcap_samplerate = False, cur_samplerate = None\<rparr>"

definition dev_rate :: sr_dev_inst where
  "dev_rate = \<lparr>probes = probes3, driver_present = True,
               hwcap_samplerate = True, cur_samplerate = Some 1000000\<rparr>"

definition six_samples :: "u8 list list" where
  "six_samples = [[0], [0], [0], [1], [1], [0]]"

section \<open>Auxiliary lemmas\<close>

subsection \<open>Words and bytes\<close>

lemma unat_ucast_u32_u64: "unat (ucast (w :: u32) :: u64) = unat w"
  by transfer simp

lemma unat_ucast_u64_u32: "unat w < 2 ^ 32 \<Longrightarrow> unat (ucast (w :: u64) :: u32) = unat w"
  by (simp add: unsigned_ucast_eq take_bit_nat_eq_self)

lemma unat_of_nat_u32: "n < 2 ^ 32 \<Longrightarrow> unat (of_nat n :: u32) = n"
  by (simp add: unat_of_nat)

lemma of_le_bytes_Cons: "of_le_bytes (b # bs) = ucast b OR push_bit 8 (of_le_bytes bs)"
  by (simp add: of_le_bytes_def)

lemma bit_of_le_bytes:
  "bit (of_le_bytes bs) p = (p < 64 \<and> p div 8 < length bs \<and> bit (bs ! (p div 8)) (p mod 8))"
proof (induction bs arbitrary: p)
  case Nil
  then show ?case by (simp add: of_le_bytes_def)
next
  case (Cons b bs)
  show ?case
  proof (cases "p < 8")
    case True
    then show ?thesis
      by (simp add: of_le_bytes_Cons bit_or_iff bit_ucast_iff bit_push_bit_iff)
  next
    case False
    then have d: "p div 8 = Suc ((p - 8) div 8)" and m: "p mod 8 = (p - 8) mod 8"
      by (simp_all add: le_div_geq le_mod_geq)
    have nb: "\<not> bit b p" using False bit_imp_le_length[of b p] by auto
    show ?thesis
      using False nb
      by (auto simp add: of_le_bytes_Cons bit_or_iff bit_ucast_iff bit_push_bit_iff Cons.IH d m)
  qed
qed

lemma le_bytes_nth: "k < 8 \<Longrightarrow> le_bytes w ! k = ucast (drop_bit (8 * k) w)"
  by (simp add: le_bytes_def)

lemma length_le_bytes: "length (le_bytes w) = 8"
  by (simp add: le_bytes_def)

lemma bit_memcpy_sample:
  assumes "length src \<le> 8"
  shows "bit (memcpy_sample v src) p =
           (p < 64 \<and> (if p div 8 < length src then bit (src ! (p div 8)) (p mod 8) else bit v p))"
proof (cases "p < 64")
  case False
  then show ?thesis by (simp add: bit_of_le_bytes memcpy_sample_def)
next
  case True
  then have k: "p div 8 < 8" by simp
  show ?thesis
  proof (cases "p div 8 < length src")
    case True
    then show ?thesis
      using \<open>p < 64\<close> assms
      by (simp add: memcpy_sample_def bit_of_le_bytes length_le_bytes nth_append)
  next
    case False
    have "8 * (p div 8) + p mod 8 = p" by simp
    then show ?thesis
      using False \<open>p < 64\<close> assms k
      by (simp add: memcpy_sample_def bit_of_le_bytes length_le_bytes nth_append
            le_bytes_nth bit_ucast_iff bit_drop_bit_eq)
  qed
qed

lemma memcpy_sample_twice:
  assumes "length src \<le> 8" "length src' = length src"
  shows "memcpy_sample (memcpy_sample v src) src' = memcpy_sample v src'"
  by (rule bit_word_eqI) (simp add: bit_memcpy_sample assms)

subsection \<open>One row\<close>

lemma length_dec: "0 < d \<Longrightarrow> n < 10 ^ d \<Longrightarrow> length (dec n) \<le> d"
proof (induction n arbitrary: d rule: dec.induct)
  case (1 n)
  show ?case
  proof (cases "n < 10")
    case True
    then show ?thesis using "1.prems" by (simp add: dec.simps)
  next
    case False
    then obtain d' where d: "d = Suc d'" using "1.prems" by (cases d) simp_all
    have "d' \<noteq> 0" using False "1.prems" d by (cases d') simp_all
    moreover have "n div 10 < 10 ^ d'" using "1.prems" d by (simp add: less_mult_imp_div_less)
    ultimately have "length (dec (n div 10)) \<le> d'"
      using "1.IH"[OF False, of d'] by simp
    then show ?thesis using False d by (subst dec.simps) simp
  qed
qed

lemma curbit_word:
  assumes "p < 31"
  shows "(ucast (drop_bit p ((smp :: u64) AND scast (push_bit p (1 :: u32)))) :: u32) = (if bit smp p then 1 else 0)"
proof (rule bit_word_eqI)
  fix n assume "n < LENGTH(32)"
  with assms show "bit (ucast (drop_bit p ((smp :: u64) AND scast (push_bit p (1 :: u32)))) :: u32) n
      = bit (if bit smp p then 1 else 0 :: u32) n"
    by (cases "n = 0") (auto simp add: bit_simps min_def)
qed

lemma curbit_bit:
  "p < 31 \<Longrightarrow> curbit smp p = Returns (if bit smp p then 1 else 0)"
  unfolding curbit_def using curbit_word[of p smp] by simp

lemma print_d_01: "print_d 0 = ''0''" "print_d 1 = ''1''"
  by (simp_all add: print_d_def dec.simps)

lemma probe_columns_31:
  "31 \<in> set ps \<Longrightarrow> probe_columns cap smp ps buf = Undefined"
  by (induction ps arbitrary: buf) (auto simp add: curbit_def split: exec.splits)

lemma probe_columns_upt:
  "e \<le> 31 \<Longrightarrow> a \<le> e \<Longrightarrow> probe_columns cap smp [a..<e] buf =
     (if a < e \<and> cap < length buf + 2 * (e - a) + 1 then Undefined
      else Returns (buf @ concat (map (\<lambda>p. if bit smp p then ''1 '' else ''0 '') [a..<e])))"
proof (induction "e - a" arbitrary: a buf)
  case 0
  then show ?case by simp
next
  case (Suc d)
  then have a: "a < e" "a < 31" "d = e - Suc a" "Suc a \<le> e" by simp_all
  have upt: "[a..<e] = a # [Suc a..<e]" using a by (simp add: upt_conv_Cons)
  show ?case
    unfolding upt using Suc.hyps(1)[OF a(3) Suc.prems(1) a(4)] a
    by (auto simp add: curbit_bit print_d_01 sprintf_at_end_def)
qed

lemma probe_columns_all:
  "probe_columns cap smp [0..<e] buf =
     (if e = 0 then Returns buf
      else if 31 < e then Undefined
      else if cap < length buf + 2 * e + 1 then Undefined
      else Returns (buf @ bit_columns e smp))"
proof (cases "31 < e")
  case True
  then have "31 \<in> set [0..<e]" by simp
  then show ?thesis using True by (simp add: probe_columns_31)
next
  case False
  then show ?thesis using probe_columns_upt[of e 0 cap smp buf]
    by (auto simp add: bit_columns_def)
qed

lemma bit_columns_0: "bit_columns 0 smp = []"
  by (simp add: bit_columns_def)

lemma length_bit_columns: "length (bit_columns e smp) = 2 * e"
  unfolding bit_columns_def by (induction e) simp_all

lemma length_row_text: "length (row_text e c smp) = length (print_u64 c) + 2 * e + 2"
  by (simp add: row_text_def length_bit_columns TAB_def NL_def)

lemma process_sample_skip:
  "samplecount (st s) \<noteq> 0 \<Longrightarrow> smp = old_sample (st s) \<Longrightarrow> \<not> is_last \<Longrightarrow>
   process_sample ctx cap is_last smp s =
     Returns (s\<lparr>sample := smp, st := (st s)\<lparr>samplecount := samplecount (st s) + 1\<rparr>\<rparr>)"
  by (simp add: process_sample_def)

lemma process_sample_emit:
  assumes "samplecount (st s) = 0 \<or> smp \<noteq> old_sample (st s) \<or> is_last"
  shows "process_sample ctx cap is_last smp s =
     (if 31 < unat (num_enabled_probes ctx) then Undefined
      else if cap < length (outbuf s) +
                length (row_text (unat (num_enabled_probes ctx)) (samplecount (st s) + 1) smp) + 1
      then Undefined
      else Returns \<lparr>sample = smp,
                    st = \<lparr>samplecount = samplecount (st s) + 2, old_sample = smp\<rparr>,
                    outbuf = outbuf s @
                      row_text (unat (num_enabled_probes ctx)) (samplecount (st s) + 1) smp\<rparr>)"
  using assms
  by (auto simp add: process_sample_def probe_columns_all sprintf_at_end_def
       length_row_text row_text_def TAB_def NL_def length_bit_columns bit_columns_0 Let_def)

subsection \<open>The sample loop\<close>

lemma loop_guard:
  assumes "unat (usz :: u32) = n" "a \<le> L" "L < 2 ^ 32" "n \<le> L"
  shows "((ucast (of_nat a :: u32) :: u64) \<le> of_nat L - ucast usz) = (a + n \<le> L)"
    and "((ucast (of_nat a :: u32) :: u64) = of_nat L - ucast usz) = (a + n = L)"
proof -
  have a: "unat (ucast (of_nat a :: u32) :: u64) = a"
    using assms by (simp add: unat_ucast_u32_u64 unat_of_nat)
  have L: "unat (of_nat L :: u64) = L"
    using assms by (simp add: unat_of_nat)
  have n: "unat (ucast usz :: u64) = n"
    using assms by (simp add: unat_ucast_u32_u64)
  have "(ucast usz :: u64) \<le> of_nat L"
    using assms L n by (simp add: word_le_nat_alt)
  then have d: "unat ((of_nat L :: u64) - ucast usz) = L - n"
    using L n by (simp add: unat_sub)
  show "((ucast (of_nat a :: u32) :: u64) \<le> of_nat L - ucast usz) = (a + n \<le> L)"
    using assms a d by (auto simp add: word_le_nat_alt)
  show "((ucast (of_nat a :: u32) :: u64) = of_nat L - ucast usz) = (a + n = L)"
    using assms a d by (auto simp add: word_unat_eq_iff)
qed

lemma length_concat_const:
  "list_all (\<lambda>c. length c = n) cs \<Longrightarrow> length (concat cs) = n * length cs"
  by (induction cs) simp_all

lemma data_loop_samples:
  assumes "unat (unitsize ctx) = n" "0 < n" "n \<le> 8"
    and "list_all (\<lambda>c. length c = n) (pre @ post)"
    and "length (concat (pre @ post)) < 2 ^ 32"
    and "pre @ post \<noteq> []"
  shows "data_loop ctx (concat (pre @ post)) cap (of_nat (length (concat pre))) s =
           Some (run_samples ctx cap s post)"
  using assms(4-6)
proof (induction post arbitrary: pre s)
  case Nil
  then have "n \<le> length (concat pre)"
    using assms(2) by (cases pre) (simp_all add: length_concat_const)
  then show ?case
    using Nil assms(1-3)
    by (subst data_loop.simps)
       (simp add: loop_guard(1)[where n = n and L = "length (concat pre)"])
next
  case (Cons c cs)
  define bs where "bs = concat (pre @ c # cs)"
  define a where "a = length (concat pre)"
  define a' where "a' = length (concat (pre @ [c]))"
  have lc: "length c = n" using Cons.prems by simp
  have L: "length bs = a + n + length (concat cs)" using lc by (simp add: bs_def a_def)
  have small: "length bs < 2 ^ 32" using Cons.prems(2) by (simp add: bs_def)
  have i: "unat (of_nat a :: u32) = a"
    using small L by (simp add: unat_of_nat)
  have g: "((ucast (of_nat a :: u32) :: u64) \<le> of_nat (length bs) - ucast (unitsize ctx))"
    using loop_guard(1)[OF assms(1), of a "length bs"] small L by simp
  have l: "((ucast (of_nat a :: u32) :: u64) = of_nat (length bs) - ucast (unitsize ctx)) = (cs = [])"
  proof -
    have "(a + n = length bs) = (cs = [])"
      using L Cons.prems(1) assms(2) by (cases cs) simp_all
    then show ?thesis
      using loop_guard(2)[OF assms(1), of a "length bs"] small L by simp
  qed
  have t: "take n (drop a bs) = c" using lc by (simp add: bs_def a_def)
  have body: "data_body ctx bs cap (of_nat a) s =
                process_sample ctx cap (cs = []) (memcpy_sample (sample s) c) s"
    using assms(1,3) i l t L by (simp add: data_body_def Let_def)
  have nx: "(of_nat a :: u32) + unitsize ctx = of_nat a'"
  proof -
    have "unitsize ctx = of_nat n" unfolding assms(1)[symmetric] by simp
    then show ?thesis using lc by (simp add: a_def a'_def)
  qed
  have ih: "\<And>s'. data_loop ctx bs cap (of_nat a') s' = Some (run_samples ctx cap s' cs)"
    using Cons.IH[of "pre @ [c]"] Cons.prems by (simp add: bs_def a'_def)
  have "data_loop ctx bs cap (of_nat a) s = Some (run_samples ctx cap s (c # cs))"
    by (subst data_loop.simps) (simp add: g body nx ih split: exec.splits)
  then show ?case by (simp only: bs_def a_def)
qed

lemma length_decoded: "length (decoded v cs) = length cs"
  by (induction cs arbitrary: v) simp_all

lemma decoded_Nil_iff: "(decoded v cs = []) = (cs = [])"
  by (cases cs) simp_all

lemma process_sample_cases:
  assumes "process_sample ctx cap is_last smp s = Returns s'"
  shows "sample s' = smp \<and> old_sample (st s') = smp \<and>
     (if samplecount (st s) = 0 \<or> is_last \<or> smp \<noteq> old_sample (st s)
      then samplecount (st s') = samplecount (st s) + 2 \<and>
           outbuf s' = outbuf s @
             row_text (unat (num_enabled_probes ctx)) (samplecount (st s) + 1) smp
      else samplecount (st s') = samplecount (st s) + 1 \<and> outbuf s' = outbuf s)"
proof (cases "samplecount (st s) = 0 \<or> smp \<noteq> old_sample (st s) \<or> is_last")
  case True
  then show ?thesis
    using assms by (auto simp add: process_sample_emit split: if_splits)
next
  case False
  then show ?thesis
    using assms by (auto simp add: process_sample_skip)
qed

lemma run_samples_rows:
  assumes "run_samples ctx cap s cs = Returns s'"
    and "unat (samplecount (st s)) + 2 * length cs < 2 ^ 64"
  shows "outbuf s' = outbuf s @
           rows_text (unat (num_enabled_probes ctx)) (samplecount (st s))
             (zip (keep_flags (samplecount (st s) = 0) (old_sample (st s)) (decoded (sample s) cs))
                  (decoded (sample s) cs))"
  using assms
proof (induction cs arbitrary: s)
  case Nil
  then show ?case by simp
next
  case (Cons c cs)
  define v where "v = memcpy_sample (sample s) c"
  obtain s1 where s1: "process_sample ctx cap (cs = []) v s = Returns s1"
    and rest: "run_samples ctx cap s1 cs = Returns s'"
    using Cons.prems(1) by (auto simp add: v_def split: exec.splits)
  note pc = process_sample_cases[OF s1]
  have c1: "unat (samplecount (st s) + 1) = unat (samplecount (st s)) + 1"
    using Cons.prems(2) by (simp add: unat_add_lem[THEN iffD1])
  have c2: "unat (samplecount (st s) + 2) = unat (samplecount (st s)) + 2"
    using Cons.prems(2) by (simp add: unat_add_lem[THEN iffD1])
  have nz: "samplecount (st s1) \<noteq> 0"
    using pc c1 c2 by (auto simp add: word_unat_eq_iff split: if_splits)
  have bound: "unat (samplecount (st s1)) + 2 * length cs < 2 ^ 64"
    using pc c1 c2 Cons.prems(2) by (auto split: if_splits)
  have ih: "outbuf s' = outbuf s1 @
           rows_text (unat (num_enabled_probes ctx)) (samplecount (st s1))
             (zip (keep_flags False v (decoded v cs)) (decoded v cs))"
    using Cons.IH[OF rest bound] pc nz by simp
  show ?case
    using ih pc
    by (auto simp add: v_def[symmetric] decoded_Nil_iff numeral_2_eq_2 add.assoc
          split: if_splits)
qed

lemma data_run_samples:
  assumes "internal out = Live ctx"
    and "unat (unitsize ctx) = n" "0 < n" "n \<le> 8"
    and "list_all (\<lambda>c. length c = n) cs" "cs \<noteq> []"
    and "length (concat cs) < 2 ^ 32"
  shows "data stat (Some out) (Some (concat cs)) True True junk malloc_ok =
     (let outsize = data_outsize ctx (of_nat (length (concat cs))) in
      if outsize = 0 then Some (Returns (SR_ERR_MALLOC, None, Some out, stat))
      else if \<not> malloc_ok then Some (Returns (SR_ERR_MALLOC, None, Some out, stat))
      else if unat outsize \<le> length (pending_header ctx) \<and> header ctx \<noteq> None
      then Some Undefined
      else
        (case run_samples ctx (unat outsize)
                \<lparr>sample = junk, st = stat, outbuf = pending_header ctx\<rparr> cs of
           Undefined \<Rightarrow> Some Undefined
         | Returns s \<Rightarrow>
             Some (Returns (SR_OK, Some (Some (outbuf s), length (outbuf s)),
                    Some (out\<lparr>internal := Live (ctx\<lparr>header := None\<rparr>)\<rparr>), st s))))"
proof -
  have nz: "unitsize ctx \<noteq> 0" using assms(2,3) by auto
  have loop: "\<And>cap s. data_loop ctx (concat cs) cap 0 s = Some (run_samples ctx cap s cs)"
    using data_loop_samples[OF assms(2-4), of "[]" cs] assms(5-7) by simp
  show ?thesis
    using assms(1) nz
    by (cases "header ctx")
       (simp_all add: data_def loop pending_header_def Let_def split: exec.splits)
qed

lemma data_eval:
  assumes "internal out = Live ctx"
    and "unat (unitsize ctx) = n" "0 < n" "n \<le> 8"
    and "list_all (\<lambda>c. length c = n) cs" "cs \<noteq> []"
    and "length (concat cs) < 2 ^ 32"
    and "bytes = concat cs"
    and "unat (data_outsize ctx (of_nat (length bytes))) = cap"
    and "length (pending_header ctx) < cap"
  shows "data stat (Some out) (Some bytes) True True junk True =
     (case run_samples ctx cap \<lparr>sample = junk, st = stat, outbuf = pending_header ctx\<rparr> cs of
        Undefined \<Rightarrow> Some Undefined
      | Returns s \<Rightarrow>
          Some (Returns (SR_OK, Some (Some (outbuf s), length (outbuf s)),
                 Some (out\<lparr>internal := Live (ctx\<lparr>header := None\<rparr>)\<rparr>), st s)))"
proof -
  have "data_outsize ctx (of_nat (length bytes)) \<noteq> 0"
    using assms(9,10) by auto
  then show ?thesis
    using data_run_samples[OF assms(1-7), of stat junk True] assms(8-10)
    by (simp add: Let_def)
qed

lemma run_samples_count:
  assumes "run_samples ctx cap s cs = Returns s'"
    and "unat (samplecount (st s)) + 2 * length cs < 2 ^ 64"
  shows "unat (samplecount (st s')) =
           unat (samplecount (st s)) + length cs +
           length (filter (\<lambda>keep. keep)
             (keep_flags (samplecount (st s) = 0) (old_sample (st s)) (decoded (sample s) cs)))"
  using assms
proof (induction cs arbitrary: s)
  case Nil
  then show ?case by simp
next
  case (Cons c cs)
  define v where "v = memcpy_sample (sample s) c"
  obtain s1 where s1: "process_sample ctx cap (cs = []) v s = Returns s1"
    and rest: "run_samples ctx cap s1 cs = Returns s'"
    using Cons.prems(1) by (auto simp add: v_def split: exec.splits)
  note pc = process_sample_cases[OF s1]
  have c1: "unat (samplecount (st s) + 1) = unat (samplecount (st s)) + 1"
    using Cons.prems(2) by (simp add: unat_add_lem[THEN iffD1])
  have c2: "unat (samplecount (st s) + 2) = unat (samplecount (st s)) + 2"
    using Cons.prems(2) by (simp add: unat_add_lem[THEN iffD1])
  have nz: "samplecount (st s1) \<noteq> 0"
    using pc c1 c2 by (auto simp add: word_unat_eq_iff split: if_splits)
  have bound: "unat (samplecount (st s1)) + 2 * length cs < 2 ^ 64"
    using pc c1 c2 Cons.prems(2) by (auto split: if_splits)
  have ih: "unat (samplecount (st s')) = unat (samplecount (st s1)) + length cs +
           length (filter (\<lambda>keep. keep) (keep_flags False v (decoded v cs)))"
    using Cons.IH[OF rest bound] pc nz by simp
  show ?case
    using ih pc c1 c2
    by (auto simp add: v_def[symmetric] decoded_Nil_iff split: if_splits)
qed

lemma data_ok_run:
  assumes live: "internal out = Live ctx"
    and complete: "list_all (\<lambda>c. length c = unat (unitsize ctx)) cs"
    and small: "length (concat cs) < 2 ^ 32"
    and ok: "data stat (Some out) (Some (concat cs)) True True junk malloc_ok =
               Some (Returns (SR_OK, Some (Some rows, len), out', stat'))"
  shows "\<exists>s. run_samples ctx (unat (data_outsize ctx (of_nat (length (concat cs)))))
               \<lparr>sample = junk, st = stat, outbuf = pending_header ctx\<rparr> cs = Returns s \<and>
             rows = outbuf s \<and> len = length rows \<and> stat' = st s \<and>
             out' = Some (out\<lparr>internal := Live (ctx\<lparr>header := None\<rparr>)\<rparr>)"
proof -
  define n where "n = unat (unitsize ctx)"
  have nz: "unitsize ctx \<noteq> 0"
    using ok live by (auto simp add: data_def split: if_splits)
  then have n0: "0 < n" by (simp add: n_def unat_gt_0)
  have n8: "n \<le> 8"
  proof (rule ccontr)
    assume "\<not> n \<le> 8"
    then have "\<And>cap s. data_loop ctx (concat cs) cap 0 s = Some Undefined"
      by (subst data_loop.simps) (simp add: data_body_def n_def Let_def)
    then show False
      using ok live nz
      by (auto simp add: data_def Let_def split: if_splits exec.splits option.splits)
  qed
  have ne: "cs \<noteq> []"
  proof
    assume "cs = []"
    then have "\<And>cap s. data_loop ctx (concat cs) cap 0 s = Some Undefined"
      using n0 by (subst data_loop.simps) (simp add: data_body_def n_def Let_def)
    then show False
      using ok live nz
      by (auto simp add: data_def Let_def split: if_splits exec.splits option.splits)
  qed
  show ?thesis
    using ok data_run_samples[OF live n_def[symmetric] n0 n8 complete[folded n_def] ne small,
        of stat junk malloc_ok]
    by (auto simp add: Let_def split: if_splits exec.splits)
qed

lemma data_counter:
  assumes live: "internal out = Live ctx"
    and complete: "list_all (\<lambda>c. length c = unat (unitsize ctx)) cs"
    and small: "length (concat cs) < 2 ^ 32"
    and nowrap: "unat (samplecount stat) + 2 * length cs < 2 ^ 64"
    and ok: "data stat (Some out) (Some (concat cs)) True True junk malloc_ok =
               Some (Returns (SR_OK, Some (Some rows, len), out', stat'))"
  shows "unat (samplecount stat') =
           unat (samplecount stat) + length cs +
           length (filter (\<lambda>keep. keep)
             (keep_flags (samplecount stat = 0) (old_sample stat) (decoded junk cs)))"
proof -
  obtain s where run: "run_samples ctx (unat (data_outsize ctx (of_nat (length (concat cs)))))
        \<lparr>sample = junk, st = stat, outbuf = pending_header ctx\<rparr> cs = Returns s"
    and st_eq: "stat' = st s"
    using data_ok_run[OF live complete small ok] by blast
  show ?thesis
    using run_samples_count[OF run] nowrap st_eq by simp
qed

subsection \<open>The size of the buffer\<close>

lemma unat_data_outsize:
  assumes "unat (unitsize ctx) = n" "0 < n" "n \<le> 8"
    and "unat (num_enabled_probes ctx) = e" "e \<le> 31"
    and "k * (16 + 2 * e) + length (pending_header ctx) < 2 ^ 32"
  shows "unat (data_outsize ctx (of_nat (n * k))) = k * (16 + 2 * e) + length (pending_header ctx)"
proof -
  have k32: "k < 2 ^ 32" using assms(6) by (cases k) (simp_all add: algebra_simps)
  have nk: "n * k < 2 ^ 64"
  proof -
    have "n * k \<le> 8 * k" using assms(3) by simp
    also have "\<dots> < 2 ^ 64" using k32 by simp
    finally show ?thesis .
  qed
  define N where "N = n * k"
  have nk': "N < 2 ^ 64" using nk by (simp add: N_def)
  have a: "unat (of_nat N :: u64) = N" using nk' by (simp add: unat_of_nat)
  have b: "unat (ucast (unitsize ctx) :: u64) = n" using assms(1) by (simp add: unat_ucast_u32_u64)
  have q: "unat ((of_nat N :: u64) div ucast (unitsize ctx)) = k"
    using a b assms(2) by (simp add: unat_div) (simp add: N_def)
  have ml: "unat (max_linelen ctx) = 16 + 2 * e"
  proof -
    have "unat (num_enabled_probes ctx * 2) = e * 2"
      using assms(4,5) by (simp add: unat_mult_lem[THEN iffD1])
    then show ?thesis
      using assms(5) by (simp add: max_linelen_def unat_add_lem[THEN iffD1])
  qed
  have ml64: "unat (ucast (max_linelen ctx) :: u64) = 16 + 2 * e"
    using ml by (simp add: unat_ucast_u32_u64)
  have small: "k * (16 + 2 * e) < 2 ^ 32" using assms(6) by simp
  have p: "unat ((of_nat N :: u64) div ucast (unitsize ctx) * ucast (max_linelen ctx))
             = k * (16 + 2 * e)"
  proof -
    have "k * (16 + 2 * e) < 2 ^ 64" using small by simp
    then show ?thesis using q ml64 by (simp add: unat_mult_lem[THEN iffD1])
  qed
  have t: "unat (ucast ((of_nat N :: u64) div ucast (unitsize ctx) * ucast (max_linelen ctx)) :: u32)
             = k * (16 + 2 * e)"
    using p small by (simp add: unat_ucast_u64_u32)
  have "unat (data_outsize ctx (of_nat N)) = k * (16 + 2 * e) + length (pending_header ctx)"
  proof (cases "header ctx")
    case None
    then show ?thesis using t by (simp add: data_outsize_def pending_header_def Let_def)
  next
    case (Some h)
    have h: "unat (of_nat (length h) :: u32) = length h"
      using assms(6) Some by (simp add: pending_header_def unat_of_nat)
    show ?thesis
      using t h Some assms(6)
      by (simp add: data_outsize_def pending_header_def Let_def unat_add_lem[THEN iffD1])
  qed
  then show ?thesis by (simp only: N_def)
qed

lemma run_samples_ok:
  assumes "unat (num_enabled_probes ctx) = e" "e \<le> 31"
    and "length (outbuf s) + length cs * (16 + 2 * e) \<le> cap"
    and "unat (samplecount (st s)) + 2 * length cs < 10 ^ 13"
  shows "\<exists>s'. run_samples ctx cap s cs = Returns s' \<and>
           length (outbuf s') \<le> length (outbuf s) + length cs * (15 + 2 * e)"
  using assms(3,4)
proof (induction cs arbitrary: s)
  case Nil
  then show ?case by simp
next
  case (Cons c cs)
  define v where "v = memcpy_sample (sample s) c"
  define cnt where "cnt = samplecount (st s)"
  have c1: "unat (cnt + 1) = unat cnt + 1"
    using Cons.prems(2) by (simp add: cnt_def unat_add_lem[THEN iffD1])
  have c2: "unat (cnt + 2) = unat cnt + 2"
    using Cons.prems(2) by (simp add: cnt_def unat_add_lem[THEN iffD1])
  have digits: "length (print_u64 (cnt + 1)) \<le> 13"
    using Cons.prems(2) c1 by (simp add: print_u64_def cnt_def length_dec)
  have row: "length (row_text e (cnt + 1) v) \<le> 15 + 2 * e"
    using digits by (simp add: length_row_text)
  have "\<exists>s1. process_sample ctx cap (cs = []) v s = Returns s1 \<and>
          length (outbuf s1) \<le> length (outbuf s) + (15 + 2 * e) \<and>
          unat (samplecount (st s1)) \<le> unat cnt + 2"
  proof (cases "cnt = 0 \<or> v \<noteq> old_sample (st s) \<or> cs = []")
    case True
    have fits: "\<not> cap < length (outbuf s) + length (row_text e (cnt + 1) v) + 1"
      using row Cons.prems(1) by simp
    show ?thesis
      using True fits row assms(1,2) c2
      by (simp add: process_sample_emit[where is_last = "cs = []"] cnt_def)
  next
    case False
    then show ?thesis
      using c1 by (simp add: process_sample_skip cnt_def)
  qed
  then obtain s1 where s1: "process_sample ctx cap (cs = []) v s = Returns s1"
    and l1: "length (outbuf s1) \<le> length (outbuf s) + (15 + 2 * e)"
    and k1: "unat (samplecount (st s1)) \<le> unat cnt + 2"
    by blast
  have "length (outbuf s1) + length cs * (16 + 2 * e) \<le> cap"
    using l1 Cons.prems(1) by simp
  moreover have "unat (samplecount (st s1)) + 2 * length cs < 10 ^ 13"
    using k1 Cons.prems(2) by (simp add: cnt_def)
  ultimately obtain s' where "run_samples ctx cap s1 cs = Returns s'"
    and "length (outbuf s') \<le> length (outbuf s1) + length cs * (15 + 2 * e)"
    using Cons.IH[of s1] by blast
  then show ?case
    using s1 l1 by (simp add: v_def)
qed

lemma data_returns_ok:
  assumes live: "internal out = Live ctx"
    and n: "unat (unitsize ctx) = n" "0 < n" "n \<le> 8"
    and e: "unat (num_enabled_probes ctx) = e" "e \<le> 31"
    and complete: "list_all (\<lambda>c. length c = n) cs" "cs \<noteq> []"
    and fits: "length cs * (16 + 2 * e) + length (pending_header ctx) < 2 ^ 32"
    and count: "unat (samplecount stat) + 2 * length cs < 10 ^ 13"
  shows "\<exists>rows stat'.
           data stat (Some out) (Some (concat cs)) True True junk True =
             Some (Returns (SR_OK, Some (Some rows, length rows),
                     Some (out\<lparr>internal := Live (ctx\<lparr>header := None\<rparr>)\<rparr>), stat')) \<and>
           length rows < unat (data_outsize ctx (of_nat (length (concat cs))))"
proof -
  define cap where "cap = length cs * (16 + 2 * e) + length (pending_header ctx)"
  have len: "length (concat cs) = n * length cs"
    using complete(1) by (rule length_concat_const)
  have sz: "unat (data_outsize ctx (of_nat (length (concat cs)))) = cap"
    unfolding len cap_def using unat_data_outsize[OF n e fits] .
  have k: "0 < length cs" using complete(2) by simp
  have small: "length (concat cs) < 2 ^ 32"
  proof -
    have "n \<le> 16 + 2 * e" using n(3) by simp
    then have le: "length cs * n \<le> length cs * (16 + 2 * e)" by (rule mult_le_mono2)
    have "length (concat cs) = length cs * n" using len by (simp add: mult.commute)
    also note le
    also have "length cs * (16 + 2 * e) < 2 ^ 32" using fits by linarith
    finally show ?thesis .
  qed
  obtain s' where run: "run_samples ctx cap
        \<lparr>sample = junk, st = stat, outbuf = pending_header ctx\<rparr> cs = Returns s'"
    and l: "length (outbuf s') \<le> length (pending_header ctx) + length cs * (15 + 2 * e)"
    using run_samples_ok[OF e, of "\<lparr>sample = junk, st = stat, outbuf = pending_header ctx\<rparr>" cs cap]
      count by (auto simp add: cap_def)
  have "length cs * (15 + 2 * e) < length cs * (16 + 2 * e)" using k by simp
  then have lt: "length (outbuf s') < cap"
    using l unfolding cap_def by linarith
  have hp: "length (pending_header ctx) < cap" using k by (simp add: cap_def)
  have "data stat (Some out) (Some (concat cs)) True True junk True =
          Some (Returns (SR_OK, Some (Some (outbuf s'), length (outbuf s')),
                  Some (out\<lparr>internal := Live (ctx\<lparr>header := None\<rparr>)\<rparr>), st s'))"
    using data_eval[OF live n complete small refl sz hp, of stat junk] run by simp
  then show ?thesis using lt sz by auto
qed

subsection \<open>Input with a trailing incomplete sample\<close>

lemma data_loop_samples_tail:
  assumes "unat (unitsize ctx) = n" "n \<le> 8"
    and "rest \<noteq> []" "length rest < n"
    and "list_all (\<lambda>c. length c = n) (pre @ post)"
    and "length (concat (pre @ post) @ rest) < 2 ^ 32"
    and "pre @ post \<noteq> []"
  shows "data_loop ctx (concat (pre @ post) @ rest) cap (of_nat (length (concat pre))) s =
           Some (run_samples_tail ctx cap s post)"
  using assms(5-7)
proof (induction post arbitrary: pre s)
  case Nil
  define bs where "bs = concat pre @ rest"
  define a where "a = length (concat pre)"
  have "0 < n" using assms(3,4) by (cases rest) simp_all
  then have "n \<le> length (concat pre)"
    using Nil by (cases pre) (simp_all add: length_concat_const)
  then have L: "length bs = a + length rest" "n \<le> length bs" "length bs < 2 ^ 32"
    using Nil.prems(2) by (simp_all add: bs_def a_def)
  have g: "\<not> ((ucast (of_nat a :: u32) :: u64) \<le> of_nat (length bs) - ucast (unitsize ctx))"
    using loop_guard(1)[OF assms(1), of a "length bs"] L assms(4) by simp
  have "data_loop ctx bs cap (of_nat a) s = Some (Returns s)"
    by (subst data_loop.simps) (simp add: g)
  then show ?case by (simp add: bs_def a_def)
next
  case (Cons c cs)
  define bs where "bs = concat (pre @ c # cs) @ rest"
  define a where "a = length (concat pre)"
  define a' where "a' = length (concat (pre @ [c]))"
  have lc: "length c = n" using Cons.prems by simp
  have L: "length bs = a + n + length (concat cs) + length rest"
    using lc by (simp add: bs_def a_def)
  have small: "length bs < 2 ^ 32" using Cons.prems(2) by (simp add: bs_def)
  have i: "unat (of_nat a :: u32) = a"
    using small L by (simp add: unat_of_nat)
  have g: "((ucast (of_nat a :: u32) :: u64) \<le> of_nat (length bs) - ucast (unitsize ctx))"
    using loop_guard(1)[OF assms(1), of a "length bs"] small L by simp
  have l: "\<not> ((ucast (of_nat a :: u32) :: u64) = of_nat (length bs) - ucast (unitsize ctx))"
    using loop_guard(2)[OF assms(1), of a "length bs"] small L assms(3) by simp
  have t: "take n (drop a bs) = c" using lc by (simp add: bs_def a_def)
  have body: "data_body ctx bs cap (of_nat a) s =
                process_sample ctx cap False (memcpy_sample (sample s) c) s"
    using assms(1,2) i l t L by (simp add: data_body_def Let_def)
  have nx: "(of_nat a :: u32) + unitsize ctx = of_nat a'"
  proof -
    have "unitsize ctx = of_nat n" unfolding assms(1)[symmetric] by simp
    then show ?thesis using lc by (simp add: a_def a'_def)
  qed
  have ih: "\<And>s'. data_loop ctx bs cap (of_nat a') s' = Some (run_samples_tail ctx cap s' cs)"
    using Cons.IH[of "pre @ [c]"] Cons.prems by (simp add: bs_def a'_def)
  have "data_loop ctx bs cap (of_nat a) s = Some (run_samples_tail ctx cap s (c # cs))"
    by (subst data_loop.simps) (simp add: g body nx ih split: exec.splits)
  then show ?case by (simp only: bs_def a_def)
qed

lemma data_partial_tail:
  assumes "internal out = Live ctx"
    and "unat (unitsize ctx) = n" "n \<le> 8"
    and "rest \<noteq> []" "length rest < n"
    and "list_all (\<lambda>c. length c = n) cs" "cs \<noteq> []"
    and "length (concat cs @ rest) < 2 ^ 32"
  shows "data stat (Some out) (Some (concat cs @ rest)) True True junk malloc_ok =
     (let outsize = data_outsize ctx (of_nat (length (concat cs @ rest))) in
      if outsize = 0 then Some (Returns (SR_ERR_MALLOC, None, Some out, stat))
      else if \<not> malloc_ok then Some (Returns (SR_ERR_MALLOC, None, Some out, stat))
      else if unat outsize \<le> length (pending_header ctx) \<and> header ctx \<noteq> None
      then Some Undefined
      else
        (case run_samples_tail ctx (unat outsize)
                \<lparr>sample = junk, st = stat, outbuf = pending_header ctx\<rparr> cs of
           Undefined \<Rightarrow> Some Undefined
         | Returns s \<Rightarrow>
             Some (Returns (SR_OK, Some (Some (outbuf s), length (outbuf s)),
                    Some (out\<lparr>internal := Live (ctx\<lparr>header := None\<rparr>)\<rparr>), st s))))"
proof -
  have nz: "unitsize ctx \<noteq> 0" using assms(2,4,5) by (cases rest) auto
  have loop: "\<And>cap s. data_loop ctx (concat cs @ rest) cap 0 s = Some (run_samples_tail ctx cap s cs)"
    using data_loop_samples_tail[OF assms(2-5), of "[]" cs] assms(6-8) by simp
  show ?thesis
    using assms(1) nz
    by (cases "header ctx")
       (simp_all add: data_def loop pending_header_def Let_def split: exec.splits)
qed

section \<open>Properties of the module\<close>

subsection \<open>Evaluation of the examples\<close>

lemma print_u64_small:
  "print_u64 1 = ''1''" "print_u64 4 = ''4''" "print_u64 5 = ''5''" "print_u64 8 = ''8''"
  by (simp_all add: print_u64_def dec.simps)

lemma memcpy_sample_0:
  "memcpy_sample 0 [0] = 0" "memcpy_sample 0 [1] = 1" "memcpy_sample 1 [1] = 1"
  "memcpy_sample 1 [0] = 0" "memcpy_sample 0 [3] = 3" "memcpy_sample 3 [3] = 3"
  by (simp_all add: memcpy_sample_def le_bytes_def of_le_bytes_def upt_rec)

lemma outsize3:
  assumes "length h + 66 < 2 ^ 32"
  shows "unat (data_outsize (ctx3 h) 3) = length h + 66"
proof -
  have "data_outsize (ctx3 h) 3 = of_nat (length h + 66)"
    by (simp add: data_outsize_def ctx3_def max_linelen_def)
  then show ?thesis using assms by (simp only: unat_of_nat_u32)
qed

lemma cols3:
  "bit_columns 3 (memcpy_sample v [3]) = ''1 1 0 ''"
  "bit_columns 3 (memcpy_sample v [5]) = ''1 0 1 ''"
  by (simp_all add: bit_columns_def upt_rec bit_memcpy_sample)

lemma neq35: "memcpy_sample v [5] \<noteq> memcpy_sample v [3]"
proof
  assume "memcpy_sample v [5] = memcpy_sample v [3]"
  then have "bit (memcpy_sample v [5]) 1 = bit (memcpy_sample v [3]) 1" by simp
  then show False by (simp add: bit_memcpy_sample)
qed

lemma pending_header_examples:
  "pending_header ctx1 = []" "pending_header ctx1h = hdr0" "pending_header (ctx3 h) = h"
  "pending_header ctx33 = []"
  by (simp_all add: pending_header_def ctx1_def ctx1h_def ctx3_def ctx33_def)

lemma enabled_examples:
  "unat (num_enabled_probes ctx1) = 1" "unat (num_enabled_probes ctx1h) = 1"
  "unat (num_enabled_probes (ctx3 h)) = 3" "unat (num_enabled_probes ctx33) = 33"
  by (simp_all add: ctx1_def ctx1h_def ctx3_def ctx33_def)

lemma out1h_after: "out1h\<lparr>internal := Live (ctx1h\<lparr>header := None\<rparr>)\<rparr> = out1"
  by (simp add: out1h_def out1_def ctx1h_def ctx1_def)

text \<open>
  With the sample rate capability present \<open>init\<close> succeeds on the device with the
  probes A, B, C: the context has three probes and one byte per sample, and the header
  has the comment line and one column line per probe.
\<close>

lemma print_d_small: "print_d 1 = ''1''" "print_d 2 = ''2''" "print_d 3 = ''3''"
  by (simp_all add: print_d_def dec.simps)

lemma columns3:
  "columns_loop 0 [''A'', ''B'', ''C''] [] =
     Returns (''# 1'' @ TAB @ TAB @ ''A'' @ NL @ ''# 2'' @ TAB @ TAB @ ''B'' @ NL @
              ''# 3'' @ TAB @ TAB @ ''C'' @ NL)"
  by (simp add: sprintf_at_end_def print_d_small TAB_def NL_def)

lemma comment3:
  "snprintf 127 (gnuplot_header_comment 3 3 ''1 MHz'') =
     ''# Comment: Acquisition with 3/3 probes at 1 MHz'' @ NL"
  by (simp add: snprintf_def gnuplot_header_comment_def print_d_small NL_def)

lemma header3:
  "snprintf (MAX_HEADER_LEN env0) (gnuplot_header (PACKAGE_STRING env0) (ctime_now env0) c p w) =
     gnuplot_header ''libsigrok 0.2.0'' (''Thu Jan  1 00:00:00 1970'' @ NL) c p w"
  if "length c + length p + length w < 3000"
proof -
  have "length (gnuplot_header ''libsigrok 0.2.0'' (''Thu Jan  1 00:00:00 1970'' @ NL) c p w)
          < 3711"
    using that by (simp add: gnuplot_header_def TAB_def NL_def)
  then show ?thesis
    by (simp add: snprintf_def MAX_HEADER_LEN_def env0_def)
qed

lemma init_example:
  "init env0 (Some \<lparr>sdi = Some dev_rate, internal = Null\<rparr>) =
     Returns (SR_OK, Some \<lparr>sdi = Some dev_rate, internal = Live
       \<lparr>num_enabled_probes = 3, unitsize = 1, probelist = [''A'', ''B'', ''C''],
        header = Some (gnuplot_header ''libsigrok 0.2.0'' (''Thu Jan  1 00:00:00 1970'' @ NL)
          (''# Comment: Acquisition with 3/3 probes at 1 MHz'' @ NL) ''1 us''
          (''# 1'' @ TAB @ TAB @ ''A'' @ NL @ ''# 2'' @ TAB @ TAB @ ''B'' @ NL @
           ''# 3'' @ TAB @ TAB @ ''C'' @ NL))\<rparr>\<rparr>)"
proof -
  define cm where "cm = ''# Comment: Acquisition with 3/3 probes at 1 MHz'' @ NL"
  define wb where "wb = ''# 1'' @ TAB @ TAB @ ''A'' @ NL @ ''# 2'' @ TAB @ TAB @ ''B'' @ NL @
           ''# 3'' @ TAB @ TAB @ ''C'' @ NL"
  define hd where "hd = gnuplot_header ''libsigrok 0.2.0'' (''Thu Jan  1 00:00:00 1970'' @ NL)
           cm ''1 us'' wb"
  have names: "map name (filter enabled (probes dev_rate)) = [''A'', ''B'', ''C'']"
    by (simp add: dev_rate_def probes3_def)
  have dev: "driver_present dev_rate" "hwcap_samplerate dev_rate"
    "cur_samplerate dev_rate = Some 1000000" "length (probes dev_rate) = 3"
    by (simp_all add: dev_rate_def probes3_def)
  have env: "ctx_malloc_ok env0" "header_malloc_ok env0" "\<not> snprintf_error env0"
    "SR_MAX_NUM_PROBES env0 = 64" "sr_samplerate_string env0 r = Some ''1 MHz''"
    "sr_period_string env0 r = Some ''1 us''" for r
    by (simp_all add: env0_def)
  have u: "((3 :: u32) + 7) div 8 = 1" by simp
  have cols: "columns_loop 0 [''A'', ''B'', ''C''] [] = Returns wb"
    unfolding wb_def by (rule columns3)
  have com: "snprintf 127 (gnuplot_header_comment 3 3 ''1 MHz'') = cm"
    unfolding cm_def by (rule comment3)
  have h: "snprintf (MAX_HEADER_LEN env0)
      (gnuplot_header (PACKAGE_STRING env0) (ctime_now env0) cm ''1 us'' wb) = hd"
    unfolding hd_def by (rule header3) (simp add: cm_def wb_def TAB_def NL_def)
  have "init env0 (Some \<lparr>sdi = Some dev_rate, internal = Null\<rparr>) =
     Returns (SR_OK, Some \<lparr>sdi = Some dev_rate, internal = Live
       \<lparr>num_enabled_probes = 3, unitsize = 1, probelist = [''A'', ''B'', ''C''],
        header = Some hd\<rparr>\<rparr>)"
    unfolding init_def
    by (simp add: names dev env u cols com h Let_def del: columns_loop.simps)
  then show ?thesis by (simp only: hd_def cm_def wb_def)
qed

subsection \<open>The sample counter\<close>

text \<open>
  C1. The claim: after \<open>N\<close> processed samples the counter is \<open>N\<close>, the first row of
  a fresh session prints 0, and the counter advances by one per processed sample. The
  code advances the counter in the test \<open>samplecount++ != 0\<close> and again in the
  \<open>sprintf\<close> of an emitted row: in a fresh session with one probe, after the single
  sample \<open>0x00\<close> the row printed is \<open>1\<close>, not \<open>0\<close>, and the counter is 2, not 1.
  In general the counter grows by the number of samples plus the number of rows
  (lemma \<open>data_counter\<close>).
\<close>

theorem data_counter_one_sample:
  "data initial_statics (Some out1h) (Some [0]) True True junk True =
     Some (Returns (SR_OK, Some (Some (hdr0 @ ''1'' @ TAB @ ''0 '' @ NL), length hdr0 + 5),
       Some out1, \<lparr>samplecount = 2, old_sample = memcpy_sample junk [0]\<rparr>))"
proof -
  have run: "run_samples ctx1h 28 \<lparr>sample = junk, st = initial_statics, outbuf = hdr0\<rparr> [[0]] =
     Returns \<lparr>sample = memcpy_sample junk [0],
              st = \<lparr>samplecount = 2, old_sample = memcpy_sample junk [0]\<rparr>,
              outbuf = hdr0 @ ''1'' @ TAB @ ''0 '' @ NL\<rparr>"
    by (simp add: process_sample_emit enabled_examples initial_statics_def row_text_def
          bit_columns_def bit_memcpy_sample print_u64_small hdr0_def TAB_def NL_def)
  have ev: "data initial_statics (Some out1h) (Some [0]) True True junk True =
     (case run_samples ctx1h 28
             \<lparr>sample = junk, st = initial_statics, outbuf = pending_header ctx1h\<rparr> [[0]] of
        Undefined \<Rightarrow> Some Undefined
      | Returns s \<Rightarrow>
          Some (Returns (SR_OK, Some (Some (outbuf s), length (outbuf s)),
                 Some (out1h\<lparr>internal := Live (ctx1h\<lparr>header := None\<rparr>)\<rparr>), st s)))"
    by (rule data_eval[where n = 1])
       (simp_all add: out1h_def ctx1h_def data_outsize_def max_linelen_def pending_header_def
          hdr0_def NL_def)
  show ?thesis
    unfolding ev pending_header_examples run
    by (simp add: out1h_after hdr0_def NL_def TAB_def)
qed

subsection \<open>Deduplication\<close>

text \<open>
  What holds for every call. For a call of \<open>data\<close> that returns \<open>SR_OK\<close> on a chunk
  of complete samples below 4 GiB, during which the 64-bit counter does not wrap, the
  output is the pending header followed by the rows of exactly those samples that
  \<open>keep_flags\<close> marks: the sample at which the static counter is still 0, the last
  complete sample of the chunk, and every sample whose decoded value (the variable
  \<open>sample\<close> after the \<open>memcpy\<close>) differs from that of the sample processed
  immediately before it, which for the first sample of a chunk is the value left in
  the static \<open>old_sample\<close>.
\<close>

lemma data_dedup_rows:
  assumes live: "internal out = Live ctx"
    and complete: "list_all (\<lambda>c. length c = unat (unitsize ctx)) cs"
    and small: "length (concat cs) < 2 ^ 32"
    and nowrap: "unat (samplecount stat) + 2 * length cs < 2 ^ 64"
    and ok: "data stat (Some out) (Some (concat cs)) True True junk malloc_ok =
               Some (Returns (SR_OK, Some (Some rows, len), out', stat'))"
  shows "rows = pending_header ctx @
           rows_text (unat (num_enabled_probes ctx)) (samplecount stat)
             (zip (keep_flags (samplecount stat = 0) (old_sample stat) (decoded junk cs))
                  (decoded junk cs))"
proof -
  obtain s where run: "run_samples ctx (unat (data_outsize ctx (of_nat (length (concat cs)))))
        \<lparr>sample = junk, st = stat, outbuf = pending_header ctx\<rparr> cs = Returns s"
    and rows_eq: "rows = outbuf s"
    using data_ok_run[OF live complete small ok] by blast
  show ?thesis
    using run_samples_rows[OF run] nowrap rows_eq by simp
qed

text \<open>
  The example of the specification, one probe and the samples 0, 0, 0, 1, 1, 0 in one
  chunk at the start of the first session: the rows are those of the positions 0, 3
  and 5, labelled 1, 5 and 8.
\<close>

lemma data_six_samples:
  "keep_flags True 0 (decoded 0 six_samples) = [True, False, False, True, False, True] \<and>
   data initial_statics (Some out1h) (Some (concat six_samples)) True True 0 True =
     Some (Returns (SR_OK,
       Some (Some (hdr0 @ ''1'' @ TAB @ ''0 '' @ NL @ ''5'' @ TAB @ ''1 '' @ NL @
                   ''8'' @ TAB @ ''0 '' @ NL), 25),
       Some out1, \<lparr>samplecount = 9, old_sample = 0\<rparr>))"
proof -
  have flags: "keep_flags True 0 (decoded 0 six_samples) =
      [True, False, False, True, False, True]"
    by (simp add: six_samples_def memcpy_sample_0)
  have c1: "bit_columns (Suc 0) 0 = ''0 ''" "bit_columns (Suc 0) 1 = ''1 ''"
    by (simp_all add: bit_columns_def)
  have run: "run_samples ctx1h 118
         \<lparr>sample = 0, st = initial_statics, outbuf = hdr0\<rparr> six_samples =
       Returns \<lparr>sample = 0, st = \<lparr>samplecount = 9, old_sample = 0\<rparr>,
                outbuf = hdr0 @ ''1'' @ TAB @ ''0 '' @ NL @ ''5'' @ TAB @ ''1 '' @ NL @
                   ''8'' @ TAB @ ''0 '' @ NL\<rparr>"
    by (simp add: six_samples_def process_sample_emit process_sample_skip enabled_examples
          initial_statics_def row_text_def memcpy_sample_0 c1 print_u64_small
          hdr0_def TAB_def NL_def)
  have ev: "data initial_statics (Some out1h) (Some (concat six_samples)) True True 0 True =
     (case run_samples ctx1h 118
             \<lparr>sample = 0, st = initial_statics, outbuf = pending_header ctx1h\<rparr> six_samples of
        Undefined \<Rightarrow> Some Undefined
      | Returns s \<Rightarrow>
          Some (Returns (SR_OK, Some (Some (outbuf s), length (outbuf s)),
                 Some (out1h\<lparr>internal := Live (ctx1h\<lparr>header := None\<rparr>)\<rparr>), st s)))"
    by (rule data_eval[where n = 1])
       (simp_all add: out1h_def ctx1h_def data_outsize_def max_linelen_def pending_header_def
          hdr0_def NL_def six_samples_def)
  have res: "data initial_statics (Some out1h) (Some (concat six_samples)) True True 0 True =
     Some (Returns (SR_OK,
       Some (Some (hdr0 @ ''1'' @ TAB @ ''0 '' @ NL @ ''5'' @ TAB @ ''1 '' @ NL @
                   ''8'' @ TAB @ ''0 '' @ NL), 25),
       Some out1, \<lparr>samplecount = 9, old_sample = 0\<rparr>))"
    unfolding ev pending_header_examples run
    by (simp add: out1h_after hdr0_def NL_def TAB_def)
  show ?thesis using flags res by simp
qed

text \<open>
  C2. The claim: in every session a row is emitted for the very first sample of the
  session and for the last complete sample of each chunk, and for no other sample that
  repeats the value before it. The code finds the first sample by the test
  \<open>samplecount++ != 0\<close> on a static of \<open>data\<close>, which \<open>init\<close> does not reset, and
  compares with the static \<open>old_sample\<close>: both carry over from one session of a process
  to the next. Here a first session converts the sample 3 and ends; in the second
  session, opened afterwards with a new context and its header pending, the chunk of
  the two samples 3, 3 yields the header and a single row, that of the last sample: the
  first sample of that session has none. (The local \<open>sample\<close> holds the same stale
  bytes \<open>junk\<close> on entry to both calls.)
\<close>

theorem data_second_session_first_sample:
  "data initial_statics (Some \<lparr>sdi = None, internal = Live (ctx3 hdr0)\<rparr>)
        (Some [3]) True True junk True =
     Some (Returns (SR_OK, Some (Some (hdr0 @ ''1'' @ TAB @ ''1 1 0 '' @ NL), 19),
       Some \<lparr>sdi = None, internal = Live ((ctx3 hdr0)\<lparr>header := None\<rparr>)\<rparr>,
       \<lparr>samplecount = 2, old_sample = memcpy_sample junk [3]\<rparr>)) \<and>
   event (Some \<lparr>sdi = None, internal = Live ((ctx3 hdr0)\<lparr>header := None\<rparr>)\<rparr>)
        SR_DF_END True True =
     Returns (SR_OK, Some (None, 0), Some \<lparr>sdi = None, internal = Null\<rparr>,
       [Context_block]) \<and>
   data \<lparr>samplecount = 2, old_sample = memcpy_sample junk [3]\<rparr>
        (Some \<lparr>sdi = None, internal = Live (ctx3 hdr0)\<rparr>)
        (Some [3, 3]) True True junk True =
     Some (Returns (SR_OK, Some (Some (hdr0 @ ''4'' @ TAB @ ''1 1 0 '' @ NL), 19),
       Some \<lparr>sdi = None, internal = Live ((ctx3 hdr0)\<lparr>header := None\<rparr>)\<rparr>,
       \<lparr>samplecount = 5, old_sample = memcpy_sample junk [3]\<rparr>))"
proof -
  have run1: "run_samples (ctx3 hdr0) 32
         \<lparr>sample = junk, st = initial_statics, outbuf = hdr0\<rparr> [[3]] =
       Returns \<lparr>sample = memcpy_sample junk [3],
                st = \<lparr>samplecount = 2, old_sample = memcpy_sample junk [3]\<rparr>,
                outbuf = hdr0 @ ''1'' @ TAB @ ''1 1 0 '' @ NL\<rparr>"
    by (simp add: process_sample_emit enabled_examples initial_statics_def row_text_def
          cols3 print_u64_small hdr0_def TAB_def NL_def)
  have ev1: "data initial_statics (Some \<lparr>sdi = None, internal = Live (ctx3 hdr0)\<rparr>)
         (Some [3]) True True junk True =
     (case run_samples (ctx3 hdr0) 32
             \<lparr>sample = junk, st = initial_statics, outbuf = pending_header (ctx3 hdr0)\<rparr>
             [[3]] of
        Undefined \<Rightarrow> Some Undefined
      | Returns s \<Rightarrow>
          Some (Returns (SR_OK, Some (Some (outbuf s), length (outbuf s)),
                 Some (\<lparr>sdi = None, internal = Live (ctx3 hdr0)\<rparr>
                         \<lparr>internal := Live ((ctx3 hdr0)\<lparr>header := None\<rparr>)\<rparr>), st s)))"
    by (rule data_eval[where n = 1])
       (simp_all add: ctx3_def data_outsize_def max_linelen_def pending_header_def
          hdr0_def NL_def)
  have run2: "run_samples (ctx3 hdr0) 54
         \<lparr>sample = junk, st = \<lparr>samplecount = 2, old_sample = memcpy_sample junk [3]\<rparr>,
            outbuf = hdr0\<rparr> [[3], [3]] =
       Returns \<lparr>sample = memcpy_sample junk [3],
                st = \<lparr>samplecount = 5, old_sample = memcpy_sample junk [3]\<rparr>,
                outbuf = hdr0 @ ''4'' @ TAB @ ''1 1 0 '' @ NL\<rparr>"
    by (simp add: process_sample_emit process_sample_skip enabled_examples row_text_def
          memcpy_sample_twice cols3 print_u64_small hdr0_def TAB_def NL_def)
  have ev2: "data \<lparr>samplecount = 2, old_sample = memcpy_sample junk [3]\<rparr>
         (Some \<lparr>sdi = None, internal = Live (ctx3 hdr0)\<rparr>) (Some [3, 3])
         True True junk True =
     (case run_samples (ctx3 hdr0) 54
             \<lparr>sample = junk, st = \<lparr>samplecount = 2, old_sample = memcpy_sample junk [3]\<rparr>,
                outbuf = pending_header (ctx3 hdr0)\<rparr> [[3], [3]] of
        Undefined \<Rightarrow> Some Undefined
      | Returns s \<Rightarrow>
          Some (Returns (SR_OK, Some (Some (outbuf s), length (outbuf s)),
                 Some (\<lparr>sdi = None, internal = Live (ctx3 hdr0)\<rparr>
                         \<lparr>internal := Live ((ctx3 hdr0)\<lparr>header := None\<rparr>)\<rparr>), st s)))"
    by (rule data_eval[where n = 1])
       (simp_all add: ctx3_def data_outsize_def max_linelen_def pending_header_def
          hdr0_def NL_def)
  have ev3: "event (Some \<lparr>sdi = None, internal = Live ((ctx3 hdr0)\<lparr>header := None\<rparr>)\<rparr>)
        SR_DF_END True True =
     Returns (SR_OK, Some (None, 0), Some \<lparr>sdi = None, internal = Null\<rparr>,
       [Context_block])"
    by (simp add: event_def)
  show ?thesis
    unfolding ev1 ev2 ev3 pending_header_examples run1 run2
    by (simp add: hdr0_def NL_def TAB_def)
qed

subsection \<open>The end-to-end example\<close>

text \<open>
  C3. The claim: with the three probes A, B, C and the chunk of the samples \<open>0b011\<close>,
  \<open>0b011\<close>, \<open>0b101\<close>, a fresh session produces the header and the rows
  \<open>"0\t1 1 0 \n"\<close> and \<open>"2\t1 0 1 \n"\<close>. The code suppresses the middle row as claimed
  but labels the two rows 1 and 4, for every pending header \<open>h\<close> that leaves the sum
  of \<open>outsize\<close> inside 32 bits and whatever the local \<open>sample\<close> holds on entry.
\<close>

theorem data_three_probes:
  assumes "length h + 66 < 2 ^ 32"
  shows "data initial_statics (Some \<lparr>sdi = dev, internal = Live (ctx3 h)\<rparr>)
           (Some [3, 3, 5]) True True junk True =
         Some (Returns (SR_OK,
           Some (Some (h @ ''1'' @ TAB @ ''1 1 0 '' @ NL @ ''4'' @ TAB @ ''1 0 1 '' @ NL),
                 length h + 18),
           Some \<lparr>sdi = dev, internal = Live ((ctx3 h)\<lparr>header := None\<rparr>)\<rparr>,
           \<lparr>samplecount = 5, old_sample = memcpy_sample junk [5]\<rparr>))"
proof -
  have run: "run_samples (ctx3 h) (length h + 66)
          \<lparr>sample = junk, st = initial_statics, outbuf = h\<rparr> [[3], [3], [5]] =
        Returns \<lparr>sample = memcpy_sample junk [5],
                 st = \<lparr>samplecount = 5, old_sample = memcpy_sample junk [5]\<rparr>,
                 outbuf = h @ ''1'' @ TAB @ ''1 1 0 '' @ NL @ ''4'' @ TAB @ ''1 0 1 '' @ NL\<rparr>"
    by (simp add: process_sample_emit process_sample_skip enabled_examples
          initial_statics_def memcpy_sample_twice neq35 row_text_def cols3 print_u64_small
          TAB_def NL_def)
  have ev: "data initial_statics (Some \<lparr>sdi = dev, internal = Live (ctx3 h)\<rparr>)
           (Some [3, 3, 5]) True True junk True =
     (case run_samples (ctx3 h) (length h + 66)
             \<lparr>sample = junk, st = initial_statics, outbuf = pending_header (ctx3 h)\<rparr>
             [[3], [3], [5]] of
        Undefined \<Rightarrow> Some Undefined
      | Returns s \<Rightarrow>
          Some (Returns (SR_OK, Some (Some (outbuf s), length (outbuf s)),
                 Some (\<lparr>sdi = dev, internal = Live (ctx3 h)\<rparr>
                         \<lparr>internal := Live ((ctx3 h)\<lparr>header := None\<rparr>)\<rparr>), st s)))"
    by (rule data_eval[where n = 1])
       (simp_all add: outsize3[OF assms] pending_header_examples, simp_all add: ctx3_def)
  show ?thesis
    unfolding ev pending_header_examples run by (simp add: TAB_def NL_def)
qed

theorem data_three_probes_witness:
  "length hdr0 + 66 < (2 :: nat) ^ 32 \<and>
   data initial_statics (Some \<lparr>sdi = None, internal = Live (ctx3 hdr0)\<rparr>)
        (Some [3, 3, 5]) True True 0 True =
     Some (Returns (SR_OK,
       Some (Some (hdr0 @ ''1'' @ TAB @ ''1 1 0 '' @ NL @ ''4'' @ TAB @ ''1 0 1 '' @ NL), 28),
       Some \<lparr>sdi = None, internal = Live ((ctx3 hdr0)\<lparr>header := None\<rparr>)\<rparr>,
       \<lparr>samplecount = 5, old_sample = 5\<rparr>))"
proof -
  have h: "length hdr0 + 66 < (2 :: nat) ^ 32" by (simp add: hdr0_def NL_def)
  have m: "memcpy_sample 0 [5] = 5"
    by (simp add: memcpy_sample_def le_bytes_def of_le_bytes_def upt_rec)
  show ?thesis
    using h data_three_probes[OF h, of None 0] by (simp add: m hdr0_def NL_def)
qed

subsection \<open>The size of the output buffer\<close>

text \<open>
  C4. The claim: the capacity \<open>k * (16 + 2 * E) + strlen (header)\<close> is never below
  the number of bytes written. A row takes the digits of the counter, a tab, two bytes
  per probe, a newline and the terminating NUL, and a 64-bit counter has up to 20
  digits. With the counter at \<open>10^14\<close>, one probe, no pending header and a chunk of one
  sample the buffer has 18 bytes, the row 19 characters: the \<open>sprintf\<close> of the bit
  column writes behind the buffer. While the counter stays below \<open>10^13\<close> and the
  product stays inside 32 bits the buffer is large enough (lemma \<open>data_returns_ok\<close>).
  The product itself is cut to 32 bits: for a chunk of 238609295 samples of one probe
  \<open>outsize\<close> is 14 (lemma \<open>data_outsize_truncated\<close>).
\<close>

lemma data_outsize_truncated: "data_outsize ctx1 238609295 = 14"
  by (simp add: data_outsize_def ctx1_def max_linelen_def)

theorem data_row_exceeds_outsize:
  "data_outsize ctx1 (of_nat (length [1 :: u8])) = 18 \<and>
   length (row_text 1 100000000000001 (memcpy_sample junk [1])) = 19 \<and>
   data \<lparr>samplecount = 100000000000000, old_sample = 0\<rparr> (Some out1) (Some [1])
        True True junk True = Some Undefined"
proof -
  have sz: "data_outsize ctx1 (of_nat (length [1 :: u8])) = 18"
    by (simp add: data_outsize_def ctx1_def max_linelen_def)
  have p: "print_u64 100000000000001 = ''100000000000001''"
    by (simp add: print_u64_def dec.simps)
  have len: "length (row_text 1 100000000000001 (memcpy_sample junk [1])) = 19"
    by (simp add: length_row_text p)
  have run: "run_samples ctx1 18
         \<lparr>sample = junk, st = \<lparr>samplecount = 100000000000000, old_sample = 0\<rparr>,
            outbuf = []\<rparr> [[1]] = Undefined"
    by (simp add: process_sample_emit enabled_examples length_row_text p)
  have ev: "data \<lparr>samplecount = 100000000000000, old_sample = 0\<rparr> (Some out1) (Some [1])
        True True junk True =
     (case run_samples ctx1 18
             \<lparr>sample = junk, st = \<lparr>samplecount = 100000000000000, old_sample = 0\<rparr>,
                outbuf = pending_header ctx1\<rparr> [[1]] of
        Undefined \<Rightarrow> Some Undefined
      | Returns s \<Rightarrow>
          Some (Returns (SR_OK, Some (Some (outbuf s), length (outbuf s)),
                 Some (out1\<lparr>internal := Live (ctx1\<lparr>header := None\<rparr>)\<rparr>), st s)))"
    by (rule data_eval[where n = 1])
       (simp_all add: out1_def ctx1_def data_outsize_def max_linelen_def pending_header_def)
  show ?thesis
    unfolding ev pending_header_examples run using sz len by simp
qed

subsection \<open>Input shorter than one sample\<close>

text \<open>
  Once the header has been written, the empty buffer makes \<open>outsize\<close> 0 and the call
  fails at the allocation, before the loop.
\<close>

lemma data_empty_buffer_no_header:
  "data stat (Some out1) (Some []) True True junk True =
     Some (Returns (SR_ERR_MALLOC, None, Some out1, stat))"
  by (simp add: data_def out1_def ctx1_def data_outsize_def max_linelen_def)

text \<open>
  C5. The claim: for an input that is not a whole number of samples, also one shorter
  than one sample such as the empty buffer, only the complete samples are processed
  and nothing outside the input is read. The bound \<open>length_in - ctx->unitsize\<close> is
  unsigned: for the empty buffer it wraps to \<open>2^64 - 1\<close>, the loop is entered, and the
  \<open>memcpy\<close> of its first pass reads one byte of a buffer that has none. In the first
  call of a session, where the pending header makes \<open>outsize\<close> non-zero, \<open>data\<close>
  gets that far. For an input of at least one sample that ends in an incomplete one
  the loop stops after the last complete sample (lemma \<open>data_partial_tail\<close>).
\<close>

theorem data_empty_buffer:
  "data_body ctx1h [] cap 0 s = Undefined \<and>
   data_loop ctx1h [] cap 0 s = Some Undefined \<and>
   data initial_statics (Some out1h) (Some []) True True junk True = Some Undefined"
proof -
  have b: "data_body ctx1h [] cap 0 s = Undefined"
    by (simp add: data_body_def ctx1h_def Let_def)
  have l: "data_loop ctx1h [] cap 0 s = Some Undefined"
    by (subst data_loop.simps) (simp add: b)
  have d: "data initial_statics (Some out1h) (Some []) True True junk True = Some Undefined"
    by (simp add: data_def out1h_def ctx1h_def data_outsize_def max_linelen_def
          hdr0_def NL_def)
  show ?thesis using b l d by simp
qed

subsection \<open>Devices without a sample rate\<close>

text \<open>
  C6. The claim: on a device without the sample rate capability \<open>init\<close> succeeds and
  the header has the period line but no comment line. The pointer \<open>samplerate\<close> is
  assigned only inside the capability test, and \<open>sr_period_string (*samplerate)\<close>
  reads through it whatever the test said: without the capability no call of \<open>init\<close>
  that gets past its argument checks and allocations returns at all.
\<close>

theorem init_without_samplerate:
  assumes "sdi out = Some dev" and "driver_present dev" and "hwcap_samplerate dev = False"
    and "ctx_malloc_ok env" and "header_malloc_ok env"
  shows "init env (Some out) = Undefined"
  using assms by (simp add: init_def Let_def split: exec.splits)

theorem init_without_samplerate_witness:
  "sdi \<lparr>sdi = Some dev_no_rate, internal = Null\<rparr> = Some dev_no_rate \<and>
   driver_present dev_no_rate \<and> hwcap_samplerate dev_no_rate = False \<and>
   ctx_malloc_ok env0 \<and> header_malloc_ok env0 \<and>
   init env0 (Some \<lparr>sdi = Some dev_no_rate, internal = Null\<rparr>) = Undefined"
proof -
  have a: "sdi \<lparr>sdi = Some dev_no_rate, internal = Null\<rparr> = Some dev_no_rate" by simp
  have b: "driver_present dev_no_rate" "hwcap_samplerate dev_no_rate = False"
    by (simp_all add: dev_no_rate_def)
  have c: "ctx_malloc_ok env0" "header_malloc_ok env0" by (simp_all add: env0_def)
  show ?thesis
    using a b c init_without_samplerate[OF a b c] by simp
qed

subsection \<open>End of stream\<close>

text \<open>
  What holds after the end of the stream. After \<open>event\<close> has handled \<open>SR_DF_END\<close>
  on an output whose context is not an already freed one, \<open>o->internal\<close> is \<open>NULL\<close>,
  and every later call of \<open>data\<close> on that output, whatever its other arguments,
  returns the error \<open>SR_ERR_ARG\<close> (the code's return value for an output without
  context), stores nothing through the out-parameters and leaves the output and the
  statics as they are, so the same holds for the call after it.
\<close>

lemma data_after_end_of_stream:
  assumes "internal out \<noteq> Dangling"
  shows "(\<exists>freed. event (Some out) SR_DF_END True True =
           Returns (SR_OK, Some (None, 0), Some (out\<lparr>internal := Null\<rparr>), freed)) \<and>
         (\<forall>stat data_in data_out length_out junk malloc_ok.
            data stat (Some (out\<lparr>internal := Null\<rparr>)) data_in data_out length_out junk malloc_ok =
              Some (Returns (SR_ERR_ARG, None, Some (out\<lparr>internal := Null\<rparr>), stat)))"
  using assms by (cases "internal out") (simp_all add: event_def data_def)

text \<open>
  C7. The claim: after the end of the stream the session state is released, and every
  later call of \<open>data\<close> fails and produces no output. The second half holds (lemma
  \<open>data_after_end_of_stream\<close>). Of the session state \<open>event\<close> releases the
  \<open>struct context\<close> only. When the end of the stream arrives before the first call of
  \<open>data\<close>, the header is still pending: its buffer is allocated, \<open>event\<close> does not
  free it, and with \<open>o->internal\<close> set to \<open>NULL\<close> nothing points to it any more. The
  failure paths of \<open>init\<close> free the header buffer before the context. (The counter
  and the last value are statics that no call resets, see C2.)
\<close>

theorem event_end_leaks_header:
  assumes "internal out = Live ctx" and "header ctx = Some h"
  shows "allocated out = [Context_block, Header_block] \<and>
         event (Some out) SR_DF_END True True =
           Returns (SR_OK, Some (None, 0), Some (out\<lparr>internal := Null\<rparr>), [Context_block]) \<and>
         allocated (out\<lparr>internal := Null\<rparr>) = []"
  using assms by (simp add: allocated_def event_def)

theorem event_end_leaks_header_witness:
  "internal out1h = Live ctx1h \<and> header ctx1h = Some hdr0 \<and>
   allocated out1h = [Context_block, Header_block] \<and>
   event (Some out1h) SR_DF_END True True =
     Returns (SR_OK, Some (None, 0), Some (out1h\<lparr>internal := Null\<rparr>), [Context_block]) \<and>
   allocated (out1h\<lparr>internal := Null\<rparr>) = []"
proof -
  have a: "internal out1h = Live ctx1h" by (simp add: out1h_def)
  have b: "header ctx1h = Some hdr0" by (simp add: ctx1h_def)
  show ?thesis
    using a b event_end_leaks_header[OF a b] by simp
qed

subsection \<open>More than 31 probes\<close>

text \<open>
  C8. The claim: up to the maximal number of probes, column \<open>p\<close> of a row is bit \<open>p\<close>
  of the sample. The mask \<open>1 << p\<close> is computed in \<open>int\<close> and converted to
  \<open>uint64_t\<close> afterwards, so it is defined for \<open>p\<close> up to 30 only. With 33 probes
  (five bytes per sample) the row of the sample whose bit 32 is set needs \<open>1 << 31\<close>
  and \<open>1 << 32\<close>. With at most 31 probes every column is the bit of the sample
  (lemmas \<open>process_sample_emit\<close> and \<open>bit_memcpy_sample\<close>).
\<close>

theorem data_33_probes:
  "curbit smp 31 = Undefined \<and> curbit smp 32 = Undefined \<and>
   data initial_statics (Some out33) (Some [0, 0, 0, 0, 1]) True True junk True =
     Some Undefined"
proof -
  have run: "run_samples ctx33 82
         \<lparr>sample = junk, st = initial_statics, outbuf = []\<rparr> [[0, 0, 0, 0, 1]] = Undefined"
    by (simp add: process_sample_emit enabled_examples initial_statics_def)
  have ev: "data initial_statics (Some out33) (Some [0, 0, 0, 0, 1]) True True junk True =
     (case run_samples ctx33 82
             \<lparr>sample = junk, st = initial_statics, outbuf = pending_header ctx33\<rparr>
             [[0, 0, 0, 0, 1]] of
        Undefined \<Rightarrow> Some Undefined
      | Returns s \<Rightarrow>
          Some (Returns (SR_OK, Some (Some (outbuf s), length (outbuf s)),
                 Some (out33\<lparr>internal := Live (ctx33\<lparr>header := None\<rparr>)\<rparr>), st s)))"
    by (rule data_eval[where n = 5])
       (simp_all add: out33_def ctx33_def data_outsize_def max_linelen_def pending_header_def)
  show ?thesis
    unfolding ev pending_header_examples run by (simp add: curbit_def)
qed

subsection \<open>Allocation failure\<close>

text \<open>
  C9. A call of \<open>data\<close> that returns \<open>SR_ERR_MALLOC\<close> has stored nothing through the
  out-parameters and has left the output object (with its pending header) and the
  statics (the counter and the last value) as they were. And when the allocation of
  the output buffer fails in a call with valid arguments and a context whose
  \<open>unitsize\<close> is not 0, the call returns \<open>SR_ERR_MALLOC\<close>.
\<close>

theorem data_malloc_failure:
  "(data stat o_ptr data_in data_out length_out junk malloc_ok =
      Some (Returns (SR_ERR_MALLOC, outp, o_ptr', stat'))
    \<longrightarrow> outp = None \<and> o_ptr' = o_ptr \<and> stat' = stat) \<and>
   (internal out = Live ctx \<and> unitsize ctx \<noteq> 0 \<and> malloc_ok = False
    \<longrightarrow> data stat (Some out) (Some bytes) True True junk malloc_ok =
          Some (Returns (SR_ERR_MALLOC, None, Some out, stat)))"
  by (auto simp add: data_def Let_def
        split: option.splits ctx_ptr.splits exec.splits if_splits)

theorem data_malloc_failure_witness:
  "data \<lparr>samplecount = 6, old_sample = 1\<rparr> (Some out1h) (Some [1, 0]) True True 0 False =
     Some (Returns (SR_ERR_MALLOC, None, Some out1h, \<lparr>samplecount = 6, old_sample = 1\<rparr>))"
  using data_malloc_failure[where malloc_ok = False and out = out1h and ctx = ctx1h
      and stat = "\<lparr>samplecount = 6, old_sample = 1\<rparr>" and bytes = "[1, 0]" and junk = 0]
  by (simp add: out1h_def ctx1h_def)

subsection \<open>Events\<close>

text \<open>
  C10. For every packet type and every output whose context is live or \<open>NULL\<close>,
  \<open>event\<close> returns \<open>SR_OK\<close> and stores \<open>NULL\<close> and the length 0. \<open>SR_DF_END\<close> sets
  \<open>o->internal\<close> to \<open>NULL\<close> and frees the context if there is one, every other type
  leaves the output as it is and frees nothing; where the context is \<open>NULL\<close> already,
  as after an earlier \<open>SR_DF_END\<close>, nothing changes and nothing is freed.
\<close>

theorem event_returns_ok:
  assumes "internal out \<noteq> Dangling"
  shows "event (Some out) event_type True True =
           Returns (SR_OK, Some (None, 0),
             Some (if event_type = SR_DF_END then out\<lparr>internal := Null\<rparr> else out),
             (if event_type = SR_DF_END \<and> internal out \<noteq> Null then [Context_block] else [])) \<and>
         (if internal out = Null
          then event (Some out) event_type True True =
                 Returns (SR_OK, Some (None, 0), Some out, [])
          else True)"
  using assms by (cases "internal out"; cases event_type) (simp_all add: event_def)

theorem event_returns_ok_witness:
  "event (Some out1) SR_DF_END True True =
     Returns (SR_OK, Some (None, 0), Some (out1\<lparr>internal := Null\<rparr>), [Context_block]) \<and>
   event (Some (out1\<lparr>internal := Null\<rparr>)) SR_DF_END True True =
     Returns (SR_OK, Some (None, 0), Some (out1\<lparr>internal := Null\<rparr>), []) \<and>
   event (Some out1) SR_DF_TRIGGER True True =
     Returns (SR_OK, Some (None, 0), Some out1, []) \<and>
   event (Some out1) (SR_DF_other 7) True True =
     Returns (SR_OK, Some (None, 0), Some out1, [])"
proof -
  have a: "internal out1 \<noteq> Dangling" by (simp add: out1_def)
  have a': "internal out1 \<noteq> Null" by (simp add: out1_def)
  have b: "internal (out1\<lparr>internal := Null\<rparr>) \<noteq> Dangling" by simp
  show ?thesis
    using event_returns_ok[OF a, of SR_DF_END] event_returns_ok[OF b, of SR_DF_END]
      event_returns_ok[OF a, of SR_DF_TRIGGER] event_returns_ok[OF a, of "SR_DF_other 7"] a'
    by simp
qed

end
